theory Spec2Isabelle
  imports Main "HOL-Library.Sublist"
begin

text \<open>
  A model of the service worker of the site (\<^verbatim>\<open>service-worker.js\<close>): the routing of
  the fetch listener, the three caching strategies, the eviction by count, the prefetch
  and the periodic cleanup. The caches and the broadcasts are an explicit state; the
  network, the clock and the parsing of dates are parameters.
\<close>

section \<open>Strings and the regular expressions of the worker\<close>

text \<open>
  JavaScript strings are modelled as \<^typ>\<open>string\<close> (a list of 8-bit characters).
  URLs, cache names and header values handled by the worker are ASCII, where a
  character of the model is a code unit of the source.
\<close>

definition toLowerCase_char :: "char \<Rightarrow> char" where
  "toLowerCase_char c =
     (let n = (of_char c :: nat) in if 65 \<le> n \<and> n \<le> 90 then char_of (n + 32) else c)"

definition toUpperCase_char :: "char \<Rightarrow> char" where
  "toUpperCase_char c =
     (let n = (of_char c :: nat) in if 97 \<le> n \<and> n \<le> 122 then char_of (n - 32) else c)"

definition toLowerCase :: "string \<Rightarrow> string" where
  "toLowerCase s = map toLowerCase_char s"

definition toUpperCase :: "string \<Rightarrow> string" where
  "toUpperCase s = map toUpperCase_char s"

text \<open>\<^verbatim>\<open>s.split('-')\<close>: the pieces of \<open>s\<close> between the separators, at least one piece.\<close>

fun split_on :: "char \<Rightarrow> string \<Rightarrow> string list" where
  "split_on sep [] = [[]]"
| "split_on sep (c # cs) =
     (if c = sep then [] # split_on sep cs
      else (case split_on sep cs of
              [] \<Rightarrow> [[c]]
            | piece # pieces \<Rightarrow> (c # piece) # pieces))"

text \<open>\<^verbatim>\<open>`${n}`\<close> for a length: the decimal digits of a natural number.\<close>

function string_of_nat :: "nat \<Rightarrow> string" where
  "string_of_nat n =
     (if n < 10 then [char_of (48 + n)]
      else string_of_nat (n div 10) @ [char_of (48 + n mod 10)])"
  by pat_completeness auto
termination
  by (relation "measure id") auto

declare string_of_nat.simps [simp del]

text \<open>
  The regular expression literals of the source have four shapes. None is anchored at
  the start, none has the multiline flag (so \<^verbatim>\<open>$\<close> is the end of the input), and the
  dot of \<^verbatim>\<open>.*\<close> matches every character but a line terminator.
  \<^item> \<open>Ends lit\<close> is \<^verbatim>\<open>/lit$/\<close>, as \<^verbatim>\<open>/\.html$/\<close>;
  \<^item> \<open>EndsAltCI pre alts\<close> is \<^verbatim>\<open>/pre(a|b|c)$/i\<close>, as
    \<^verbatim>\<open>/\.(jpg|jpeg|png|gif|webp|svg|ico)$/i\<close> (the literal is in lower case);
  \<^item> \<open>Contains lit\<close> is \<^verbatim>\<open>/lit/\<close>, as \<^verbatim>\<open>/video/\<close>;
  \<^item> \<open>ContainsThenEnds a b\<close> is \<^verbatim>\<open>/a.*b$/\<close>, as \<^verbatim>\<open>/master_.*\.json$/\<close>.
\<close>

datatype regexp =
    Ends string
  | EndsAltCI string "string list"
  | Contains string
  | ContainsThenEnds string string

definition is_line_terminator :: "char \<Rightarrow> bool" where
  "is_line_terminator c = (c = CHR 0x0A \<or> c = CHR 0x0D)"

definition dot_star_then_end :: "string \<Rightarrow> string \<Rightarrow> bool" where
  "dot_star_then_end b t =
     (suffix b t \<and> \<not> list_ex is_line_terminator (take (length t - length b) t))"

fun contains_then_ends :: "string \<Rightarrow> string \<Rightarrow> string \<Rightarrow> bool" where
  "contains_then_ends a b [] = (a = [] \<and> dot_star_then_end b [])"
| "contains_then_ends a b (c # cs) =
     ((prefix a (c # cs) \<and> dot_star_then_end b (drop (length a) (c # cs)))
      \<or> contains_then_ends a b cs)"

text \<open>\<^verbatim>\<open>pattern.test(s)\<close>\<close>

fun test :: "regexp \<Rightarrow> string \<Rightarrow> bool" where
  "test (Ends lit) s = suffix lit s"
| "test (EndsAltCI pre alts) s = list_ex (\<lambda>alt. suffix (pre @ alt) (toLowerCase s)) alts"
| "test (Contains lit) s = sublist lit s"
| "test (ContainsThenEnds a b) s = contains_then_ends a b s"

text \<open>\<^verbatim>\<open>PATTERNS.some(pattern => pattern.test(s))\<close>\<close>

definition some_test :: "regexp list \<Rightarrow> string \<Rightarrow> bool" where
  "some_test patterns s = list_ex (\<lambda>pattern. test pattern s) patterns"

section \<open>Configuration\<close>

definition CACHE_VERSION :: string where
  "CACHE_VERSION = ''1010250100''"

datatype cache_id = STATIC | DYNAMIC | IMAGES | JSON | FONTS

fun CACHE_NAMES :: "cache_id \<Rightarrow> string" where
  "CACHE_NAMES STATIC = ''meow-static-'' @ CACHE_VERSION"
| "CACHE_NAMES DYNAMIC = ''meow-dynamic-'' @ CACHE_VERSION"
| "CACHE_NAMES IMAGES = ''meow-images-'' @ CACHE_VERSION"
| "CACHE_NAMES JSON = ''meow-json-'' @ CACHE_VERSION"
| "CACHE_NAMES FONTS = ''meow-fonts-'' @ CACHE_VERSION"

declare CACHE_NAMES.simps [simp del]

text \<open>\<^verbatim>\<open>Object.values(CACHE_NAMES)\<close>, in the order of the object literal.\<close>

definition CACHE_NAMES_values :: "string list" where
  "CACHE_NAMES_values = map CACHE_NAMES [STATIC, DYNAMIC, IMAGES, JSON, FONTS]"

definition DYNAMIC_CACHE_PATTERNS :: "regexp list" where
  "DYNAMIC_CACHE_PATTERNS =
     [Ends ''.html'', Ends ''.css'', Ends ''.js'', ContainsThenEnds ''master_'' ''.json'']"

text \<open>\<^verbatim>\<open>/\.(jpg|jpeg|png|gif|webp|svg|ico)$/i\<close>, the first of the image patterns.\<close>

definition image_extension_pattern :: regexp where
  "image_extension_pattern =
     EndsAltCI ''.'' [''jpg'', ''jpeg'', ''png'', ''gif'', ''webp'', ''svg'', ''ico'']"

definition IMAGE_CACHE_PATTERNS :: "regexp list" where
  "IMAGE_CACHE_PATTERNS =
     [image_extension_pattern, Contains ''share_image_url'', Contains ''placeholder'']"

definition JSON_CACHE_PATTERNS :: "regexp list" where
  "JSON_CACHE_PATTERNS = [Ends ''.json'', Contains ''master_'']"

definition EXTERNAL_CACHE_PATTERNS :: "regexp list" where
  "EXTERNAL_CACHE_PATTERNS =
     [Contains ''fonts.googleapis.com'', Contains ''fonts.gstatic.com'',
      Contains ''cdnjs.cloudflare.com'', Contains ''cdn.jsdelivr.net'']"

definition NETWORK_FIRST_PATTERNS :: "regexp list" where
  "NETWORK_FIRST_PATTERNS =
     [Ends ''.m3u8'', Ends ''.ts'', Ends ''.mp4'', Ends ''.webm'', Contains ''video'']"

text \<open>\<^verbatim>\<open>CACHE_LIMITS[key]\<close>: \<open>None\<close> is \<^verbatim>\<open>undefined\<close>.\<close>

definition CACHE_LIMITS :: "string \<Rightarrow> nat option" where
  "CACHE_LIMITS key =
     (if key = ''IMAGES'' then Some 5000
      else if key = ''JSON'' then Some 5000
      else if key = ''DYNAMIC'' then Some 50
      else None)"

section \<open>Requests, responses and the cache store\<close>

text \<open>
  A parsed URL, as the URL standard records it. \<open>protocol\<close> ends with its colon and
  \<open>port\<close> is empty for the default port. The query and the fragment are absent
  (\<open>None\<close>) or present, and a present one may be empty: \<^verbatim>\<open>/a.png?\<close> has the query
  \<open>Some []\<close>. URLs with credentials are not modelled.
\<close>

record url =
  protocol :: string
  hostname :: string
  port :: string
  pathname :: string
  query :: "string option"
  fragment :: "string option"

text \<open>
  The getters \<^verbatim>\<open>url.search\<close> and \<^verbatim>\<open>url.hash\<close>: the empty string when the part is
  absent or empty, else the part after its question mark or number sign.
\<close>

definition search :: "url \<Rightarrow> string" where
  "search u = (case query u of None \<Rightarrow> [] | Some q \<Rightarrow> if q = [] then [] else ''?'' @ q)"

definition hash :: "url \<Rightarrow> string" where
  "hash u = (case fragment u of None \<Rightarrow> [] | Some f \<Rightarrow> if f = [] then [] else ''#'' @ f)"

text \<open>
  The serialisation of a URL without its fragment, and \<^verbatim>\<open>request.url\<close>, which carries
  the fragment. A present query or fragment is written with its question mark or
  number sign also when it is empty, so the serialisation is not the concatenation of
  the getters. The Cache API compares requests by URL without the fragment.
\<close>

definition href_no_fragment :: "url \<Rightarrow> string" where
  "href_no_fragment u =
     protocol u @ ''//'' @ hostname u @ (if port u = [] then [] else '':'' @ port u)
       @ pathname u @ (case query u of None \<Rightarrow> [] | Some q \<Rightarrow> ''?'' @ q)"

definition href :: "url \<Rightarrow> string" where
  "href u = href_no_fragment u @ (case fragment u of None \<Rightarrow> [] | Some f \<Rightarrow> ''#'' @ f)"

text \<open>Header lists hold lower-case names, as \<^verbatim>\<open>Headers\<close> objects do.\<close>

type_synonym headers = "(string \<times> string) list"

definition headers_get :: "headers \<Rightarrow> string \<Rightarrow> string option" where
  "headers_get hs name = map_of hs name"

record request =
  req_method :: string
  req_url :: url
  req_headers :: headers

definition request_url :: "request \<Rightarrow> string" where
  "request_url request = href (req_url request)"

definition request_key :: "request \<Rightarrow> string" where
  "request_key request = href_no_fragment (req_url request)"

record response =
  status :: nat
  headers :: headers
  body :: string

text \<open>\<^verbatim>\<open>response.ok\<close>\<close>

definition ok :: "response \<Rightarrow> bool" where
  "ok r = (200 \<le> status r \<and> status r \<le> 299)"

datatype js_error = JsError string

fun error_message :: "js_error \<Rightarrow> string" where
  "error_message (JsError m) = m"

text \<open>
  \<^verbatim>\<open>fetch(request)\<close> settles with a response (of any status) or rejects: the network
  is a parameter of the model.
\<close>

type_synonym network = "request \<Rightarrow> js_error + response"

text \<open>
  A cache is the list of its entries in insertion order, which is the order of
  \<^verbatim>\<open>cache.keys()\<close>; an entry is keyed by the URL of its request. \<^verbatim>\<open>cache.put\<close>
  removes the entry of the same request and appends the new one. The operations of
  the store are total in the model: a store that rejects a read or a write (as
  \<^verbatim>\<open>cache.put\<close> does for a response of status 206) is outside it.
\<close>

type_synonym cache = "(string \<times> response) list"

definition cache_match :: "cache \<Rightarrow> string \<Rightarrow> response option" where
  "cache_match cache key = map_of cache key"

definition cache_keys :: "cache \<Rightarrow> string list" where
  "cache_keys cache = map fst cache"

definition cache_delete :: "cache \<Rightarrow> string \<Rightarrow> cache" where
  "cache_delete cache key = filter (\<lambda>entry. fst entry \<noteq> key) cache"

definition cache_put :: "cache \<Rightarrow> string \<Rightarrow> response \<Rightarrow> cache" where
  "cache_put cache key r = cache_delete cache key @ [(key, r)]"

section \<open>The state of the worker and its broadcasts\<close>

datatype message_type =
  SW_ACTIVATED | CACHE_UPDATED | CONTENT_UPDATED | CACHE_ERROR | OFFLINE_FALLBACK | SW_UPDATED

text \<open>The auxiliary data of a broadcast: \<^verbatim>\<open>{ showNotification, message? }\<close>.\<close>

record aux_data =
  showNotification :: bool
  aux_message :: "string option"

text \<open>
  A broadcast message. Its \<^verbatim>\<open>timestamp: Date.now()\<close> is left to the clock of the host
  and is not part of the model.
\<close>

record message =
  msg_type :: message_type
  msg_message :: string
  msg_url :: "string option"
  msg_data :: "aux_data option"

text \<open>
  The state: the cache storage (\<^verbatim>\<open>caches.open(name)\<close> gives the cache of that name,
  empty when it did not exist) and the messages posted to the clients so far, oldest
  first. A detached task (a background refresh, a broadcast) is run to its end where the
  source starts it, so a state is the one reached once every task has settled.
\<close>

record sw_state =
  caches :: "string \<Rightarrow> cache"
  posted :: "message list"

definition broadcastMessage ::
  "message_type \<Rightarrow> string \<Rightarrow> string option \<Rightarrow> aux_data option \<Rightarrow> sw_state \<Rightarrow> sw_state" where
  "broadcastMessage type msg url_opt data s =
     s\<lparr>posted := posted s @
        [\<lparr>msg_type = type, msg_message = msg, msg_url = url_opt, msg_data = data\<rparr>]\<rparr>"

definition set_cache :: "string \<Rightarrow> cache \<Rightarrow> sw_state \<Rightarrow> sw_state" where
  "set_cache cacheName cache s = s\<lparr>caches := (caches s)(cacheName := cache)\<rparr>"

section \<open>Eviction by count\<close>

text \<open>
  \<^verbatim>\<open>CACHE_LIMITS[cacheName.split('-')[1]?.toUpperCase()] || 50\<close>: the second piece of
  the name, in upper case, looked up in the table; 50 when there is no second piece,
  no such key, or the limit is 0.
\<close>

definition cache_limit :: "string \<Rightarrow> nat" where
  "cache_limit cacheName =
     (case (case split_on CHR ''-'' cacheName of
              _ # piece # _ \<Rightarrow> CACHE_LIMITS (toUpperCase piece)
            | _ \<Rightarrow> None) of
        None \<Rightarrow> 50
      | Some limit \<Rightarrow> if limit = 0 then 50 else limit)"

definition manageCacheSize :: "cache \<Rightarrow> string \<Rightarrow> cache" where
  "manageCacheSize cache cacheName =
     (let limit = cache_limit cacheName;
          keys = cache_keys cache
      in if length keys > limit then
           (let deleteCount = length keys - limit;
                keysToDelete = take deleteCount keys
            in foldl cache_delete cache keysToDelete)
         else cache)"

section \<open>The three strategies\<close>

definition placeholder_svg :: string where
  \<open>placeholder_svg =
     ''<svg xmlns="http://www.w3.org/2000/svg" width="300" height="400" viewBox="0 0 300 400">''
     @ ''<rect width="300" height="400" fill="#1a1a1a"/>''
     @ ''<text x="150" y="200" text-anchor="middle" fill="#666" font-family="Arial" font-size="16">''
     @ ''Image Unavailable</text></svg>''\<close>

definition placeholder_response :: response where
  "placeholder_response =
     \<lparr>status = 200, headers = [(''content-type'', ''image/svg+xml'')], body = placeholder_svg\<rparr>"

definition offline_html :: string where
  \<open>offline_html =
     ''<!DOCTYPE html>'' @ [CHR 0x0A]
     @ ''        <html>'' @ [CHR 0x0A]
     @ ''        <head>'' @ [CHR 0x0A]
     @ ''          <title>Offline - Meow</title>'' @ [CHR 0x0A]
     @ ''          <style>'' @ [CHR 0x0A]
     @ ''            body { font-family: Arial; text-align: center; padding: 50px; background: #0a0a0a; color: white; }'' @ [CHR 0x0A]
     @ ''            .offline { font-size: 48px; margin-bottom: 20px; }'' @ [CHR 0x0A]
     @ ''          </style>'' @ [CHR 0x0A]
     @ ''        </head>'' @ [CHR 0x0A]
     @ ''        <body>'' @ [CHR 0x0A]
     @ ''          <div class="offline">'' @ [CHR 0xF0, CHR 0x9F, CHR 0x93, CHR 0xB1] @ ''</div>'' @ [CHR 0x0A]
     @ ''          <h1>You'' @ [CHR 0x27] @ ''re Offline</h1>'' @ [CHR 0x0A]
     @ ''          <p>Check your connection and try again</p>'' @ [CHR 0x0A]
     @ ''        </body>'' @ [CHR 0x0A]
     @ ''        </html>''\<close>

definition offline_response :: response where
  "offline_response =
     \<lparr>status = 200, headers = [(''content-type'', ''text/html'')], body = offline_html\<rparr>"

text \<open>
  \<^verbatim>\<open>updateInBackground(request, cache)\<close>: the refresh overwrites the entry and
  broadcasts; a failed fetch is only logged. It does not call \<open>manageCacheSize\<close>.
\<close>

definition updateInBackground :: "network \<Rightarrow> request \<Rightarrow> string \<Rightarrow> sw_state \<Rightarrow> sw_state" where
  "updateInBackground fetch request cacheName s =
     (case fetch request of
        Inr networkResponse \<Rightarrow>
          if ok networkResponse then
            broadcastMessage CACHE_UPDATED ''Background update completed''
              (Some (request_url request))
              (Some \<lparr>showNotification = False, aux_message = None\<rparr>)
              (set_cache cacheName
                 (cache_put (caches s cacheName) (request_key request) networkResponse) s)
          else s
      | Inl error \<Rightarrow> s)"

text \<open>
  \<^verbatim>\<open>cacheFirstStrategy(request, cacheName)\<close>: \<open>Inl\<close> is the rejection of the returned
  promise. The fallback of the \<^verbatim>\<open>catch\<close> block tests the image patterns against
  \<^verbatim>\<open>request.url\<close>.
\<close>

definition cacheFirstStrategy ::
  "network \<Rightarrow> request \<Rightarrow> string \<Rightarrow> sw_state \<Rightarrow> (js_error + response) \<times> sw_state" where
  "cacheFirstStrategy fetch request cacheName s =
     (case cache_match (caches s cacheName) (request_key request) of
        Some cachedResponse \<Rightarrow>
          (Inr cachedResponse, updateInBackground fetch request cacheName s)
      | None \<Rightarrow>
          (case fetch request of
             Inr networkResponse \<Rightarrow>
               if ok networkResponse then
                 (let s1 = set_cache cacheName
                        (cache_put (caches s cacheName) (request_key request) networkResponse) s;
                      s2 = set_cache cacheName
                        (manageCacheSize (caches s1 cacheName) cacheName) s1
                  in (Inr networkResponse,
                      broadcastMessage CACHE_UPDATED ''Resource cached''
                        (Some (request_url request)) None s2))
               else (Inr networkResponse, s)
           | Inl error \<Rightarrow>
               (let s1 = broadcastMessage CACHE_ERROR (error_message error)
                           (Some (request_url request)) None s
                in if some_test IMAGE_CACHE_PATTERNS (request_url request)
                   then (Inr placeholder_response, s1)
                   else (Inl error, s1))))"

text \<open>\<^verbatim>\<open>request.headers.get('accept')?.includes('text/html')\<close>\<close>

definition accepts_html :: "request \<Rightarrow> bool" where
  "accepts_html request =
     (case headers_get (req_headers request) ''accept'' of
        None \<Rightarrow> False
      | Some accept \<Rightarrow> sublist ''text/html'' accept)"

text \<open>
  \<^verbatim>\<open>networkFirstStrategy(request)\<close>: the response of the network is returned whatever
  its status; only a rejected fetch reaches the \<^verbatim>\<open>catch\<close> block.
\<close>

definition networkFirstStrategy ::
  "network \<Rightarrow> request \<Rightarrow> sw_state \<Rightarrow> (js_error + response) \<times> sw_state" where
  "networkFirstStrategy fetch request s =
     (case fetch request of
        Inr networkResponse \<Rightarrow> (Inr networkResponse, s)
      | Inl error \<Rightarrow>
          (case cache_match (caches s (CACHE_NAMES DYNAMIC)) (request_key request) of
             Some cachedResponse \<Rightarrow>
               (Inr cachedResponse,
                broadcastMessage OFFLINE_FALLBACK ''Serving cached version''
                  (Some (request_url request)) None s)
           | None \<Rightarrow>
               if accepts_html request then (Inr offline_response, s)
               else (Inl error, s)))"

text \<open>
  \<^verbatim>\<open>staleWhileRevalidateStrategy(request, cacheName)\<close>. The promise of the network
  update has a \<^verbatim>\<open>catch\<close> handler that returns \<^verbatim>\<open>cachedResponse\<close>, so it never rejects:
  it resolves to a response or to \<^verbatim>\<open>undefined\<close> (\<open>None\<close>).
\<close>

definition networkPromise ::
  "network \<Rightarrow> request \<Rightarrow> string \<Rightarrow> response option \<Rightarrow> sw_state
     \<Rightarrow> (js_error + response option) \<times> sw_state" where
  "networkPromise fetch request cacheName cachedResponse s =
     (case fetch request of
        Inr networkResponse \<Rightarrow>
          if ok networkResponse then
            (let s1 = set_cache cacheName
                   (cache_put (caches s cacheName) (request_key request) networkResponse) s;
                 s2 = set_cache cacheName
                   (manageCacheSize (caches s1 cacheName) cacheName) s1
             in (Inr (Some networkResponse),
                 (case cachedResponse of
                    Some cached \<Rightarrow>
                      if body cached \<noteq> body networkResponse
                      then broadcastMessage CONTENT_UPDATED ''Content updated''
                             (Some (request_url request)) None s2
                      else s2
                  | None \<Rightarrow>
                      broadcastMessage CACHE_UPDATED ''New content cached''
                        (Some (request_url request)) None s2)))
          else (Inr (Some networkResponse), s)
      | Inl error \<Rightarrow>
          (Inr cachedResponse,
           broadcastMessage CACHE_ERROR (error_message error)
             (Some (request_url request)) None s))"

definition staleWhileRevalidateStrategy ::
  "network \<Rightarrow> request \<Rightarrow> string \<Rightarrow> sw_state \<Rightarrow> (js_error + response option) \<times> sw_state" where
  "staleWhileRevalidateStrategy fetch request cacheName s =
     (let cachedResponse = cache_match (caches s cacheName) (request_key request);
          settled = networkPromise fetch request cacheName cachedResponse s
      in case cachedResponse of
           Some cached \<Rightarrow> (Inr (Some cached), snd settled)
         | None \<Rightarrow> settled)"

section \<open>Prefetch\<close>

text \<open>
  \<^verbatim>\<open>handlePrefetchResources(urls)\<close> fetches each URL string and stores an ok response
  under that string, in the partition chosen by testing the whole string. It does not
  call \<open>manageCacheSize\<close>. The strings are absolute URLs without a fragment, so the
  string is the key of the entry.
\<close>

definition prefetch_one :: "(string \<Rightarrow> js_error + response) \<Rightarrow> sw_state \<Rightarrow> string \<Rightarrow> sw_state" where
  "prefetch_one fetch_url s url_string =
     (case fetch_url url_string of
        Inr r \<Rightarrow>
          if ok r then
            (let cacheName =
                   (if some_test IMAGE_CACHE_PATTERNS url_string then CACHE_NAMES IMAGES
                    else if some_test JSON_CACHE_PATTERNS url_string then CACHE_NAMES JSON
                    else CACHE_NAMES DYNAMIC)
             in set_cache cacheName (cache_put (caches s cacheName) url_string r) s)
          else s
      | Inl error \<Rightarrow> s)"

definition handlePrefetchResources ::
  "(string \<Rightarrow> js_error + response) \<Rightarrow> string list \<Rightarrow> sw_state \<Rightarrow> sw_state" where
  "handlePrefetchResources fetch_url urls s =
     broadcastMessage CACHE_UPDATED
       (''Prefetched '' @ string_of_nat (length urls) @ '' resources'') None
       (Some \<lparr>showNotification = True,
              aux_message = Some (string_of_nat (length urls) @ '' resources cached for offline use'')\<rparr>)
       (foldl (prefetch_one fetch_url) s urls)"

section \<open>The periodic cleanup\<close>

text \<open>
  \<^verbatim>\<open>new Date(dateHeader).getTime()\<close> is a parameter: the milliseconds since the epoch,
  or \<open>None\<close> for \<^verbatim>\<open>NaN\<close> (a comparison with \<^verbatim>\<open>NaN\<close> is false). \<open>expire_entry\<close> is
  the body of the inner loop: an entry is deleted when its response has a non-empty
  \<^verbatim>\<open>date\<close> header whose time is before \<open>sevenDaysAgo\<close>.
\<close>

type_synonym date_parser = "string \<Rightarrow> int option"

definition expire_entry :: "date_parser \<Rightarrow> int \<Rightarrow> cache \<Rightarrow> string \<Rightarrow> cache" where
  "expire_entry getTime sevenDaysAgo cache request =
     (case cache_match cache request of
        None \<Rightarrow> cache
      | Some r \<Rightarrow>
          (case headers_get (headers r) ''date'' of
             None \<Rightarrow> cache
           | Some dateHeader \<Rightarrow>
               if dateHeader = [] then cache
               else (case getTime dateHeader of
                       None \<Rightarrow> cache
                     | Some responseDate \<Rightarrow>
                         if responseDate < sevenDaysAgo then cache_delete cache request
                         else cache)))"

definition sweep_cache :: "date_parser \<Rightarrow> int \<Rightarrow> cache \<Rightarrow> cache" where
  "sweep_cache getTime sevenDaysAgo cache =
     foldl (expire_entry getTime sevenDaysAgo) cache (cache_keys cache)"

text \<open>
  \<^verbatim>\<open>performPeriodicCleanup()\<close>: first \<open>manageCacheSize\<close> on each cache of
  \<open>CACHE_NAMES\<close>, then the sweep of each by age; \<open>now\<close> is \<^verbatim>\<open>Date.now()\<close>.
\<close>

definition performPeriodicCleanup :: "date_parser \<Rightarrow> int \<Rightarrow> sw_state \<Rightarrow> sw_state" where
  "performPeriodicCleanup getTime now s =
     (let s1 = foldl (\<lambda>st cacheName.
                   set_cache cacheName (manageCacheSize (caches st cacheName) cacheName) st)
                 s CACHE_NAMES_values;
          sevenDaysAgo = now - 7 * 24 * 60 * 60 * 1000
      in foldl (\<lambda>st cacheName.
             set_cache cacheName (sweep_cache getTime sevenDaysAgo (caches st cacheName)) st)
           s1 CACHE_NAMES_values)"

section \<open>The fetch listener\<close>

datatype strategy = NetworkFirst | CacheFirst string | StaleWhileRevalidate string

text \<open>
  The chain of tests of the listener: \<open>None\<close> when the listener returns without
  \<^verbatim>\<open>event.respondWith\<close>, else the strategy it calls and the partition it passes.
\<close>

definition route :: "request \<Rightarrow> strategy option" where
  "route request =
     (let u = req_url request in
      if req_method request \<noteq> ''GET'' then None
      else if \<not> prefix ''http'' (protocol u) then None
      else if some_test NETWORK_FIRST_PATTERNS (pathname u @ search u)
        then Some NetworkFirst
      else if some_test IMAGE_CACHE_PATTERNS (pathname u @ search u)
        then Some (CacheFirst (CACHE_NAMES IMAGES))
      else if some_test JSON_CACHE_PATTERNS (pathname u)
        then Some (StaleWhileRevalidate (CACHE_NAMES JSON))
      else if some_test EXTERNAL_CACHE_PATTERNS (hostname u)
        then Some (CacheFirst (CACHE_NAMES FONTS))
      else if some_test DYNAMIC_CACHE_PATTERNS (pathname u)
        then Some (StaleWhileRevalidate (CACHE_NAMES DYNAMIC))
      else Some NetworkFirst)"

text \<open>
  What \<^verbatim>\<open>event.respondWith\<close> is given: \<open>None\<close> when the request is not intercepted,
  else how the promise of the strategy settles (\<open>Inl\<close> a rejection, \<open>Inr None\<close> the
  value \<^verbatim>\<open>undefined\<close>).
\<close>

definition fetch_listener ::
  "network \<Rightarrow> request \<Rightarrow> sw_state \<Rightarrow> (js_error + response option) option \<times> sw_state" where
  "fetch_listener fetch request s =
     (case route request of
        None \<Rightarrow> (None, s)
      | Some NetworkFirst \<Rightarrow>
          (let settled = networkFirstStrategy fetch request s
           in (Some (map_sum id Some (fst settled)), snd settled))
      | Some (CacheFirst cacheName) \<Rightarrow>
          (let settled = cacheFirstStrategy fetch request cacheName s
           in (Some (map_sum id Some (fst settled)), snd settled))
      | Some (StaleWhileRevalidate cacheName) \<Rightarrow>
          (let settled = staleWhileRevalidateStrategy fetch request cacheName s
           in (Some (fst settled), snd settled)))"

section \<open>The classifier as the specification words it\<close>

text \<open>
  The specification describes the classifier as an ordered list of pattern groups, the
  first matching group giving the resource class, and network-first treatment for a
  request that matches no group. \<open>spec_pattern_groups\<close>, \<open>spec_classify\<close> and
  \<open>spec_class_strategy\<close> follow these words; they are compared with \<open>route\<close>, which
  follows the source.
\<close>

datatype resource_class =
  StreamingMedia | Image | StructuredData | ExternalAsset | DynamicDocument




section \<open>Derived notions and sample inputs\<close>

text \<open>
  The condition under which the inner loop of the cleanup deletes an entry, read off
  \<open>expire_entry\<close>: the response has a non-empty \<^verbatim>\<open>date\<close> header that parses to a
  time before \<open>sevenDaysAgo\<close>.
\<close>

definition expired :: "date_parser \<Rightarrow> int \<Rightarrow> response \<Rightarrow> bool" where
  "expired getTime sevenDaysAgo r =
     (case headers_get (headers r) ''date'' of
        None \<Rightarrow> False
      | Some dateHeader \<Rightarrow>
          dateHeader \<noteq> [] \<and>
          (case getTime dateHeader of
             None \<Rightarrow> False
           | Some responseDate \<Rightarrow> responseDate < sevenDaysAgo))"

text \<open>The number a string of decimal digits denotes; it inverts \<open>string_of_nat\<close>.\<close>

definition decimal_value :: "string \<Rightarrow> nat" where
  "decimal_value s = foldl (\<lambda>acc c. 10 * acc + (of_char c - 48)) 0 s"

text \<open>The entries of a list put into a cache one after the other.\<close>

definition put_all :: "cache \<Rightarrow> (string \<times> response) list \<Rightarrow> cache" where
  "put_all cache entries = foldl (\<lambda>c entry. cache_put c (fst entry) (snd entry)) cache entries"

text \<open>One day in milliseconds.\<close>

definition day :: int where
  "day = 24 * 60 * 60 * 1000"

text \<open>Inputs on which the theorems below are evaluated.\<close>

text \<open>
  The URL written \<^verbatim>\<open>https://meow.example\<close> followed by a path, the text of a query
  (empty, or a question mark and the query) and the text of a fragment (empty, or a
  number sign and the fragment).
\<close>

fun url_part :: "string \<Rightarrow> string option" where
  "url_part [] = None"
| "url_part (mark # part) = Some part"

definition site_url :: "string \<Rightarrow> string \<Rightarrow> string \<Rightarrow> url" where
  "site_url path query_text fragment_text =
     \<lparr>protocol = ''https:'', hostname = ''meow.example'', port = [],
      pathname = path, query = url_part query_text, fragment = url_part fragment_text\<rparr>"

definition get_request :: "url \<Rightarrow> headers \<Rightarrow> request" where
  "get_request u hs = \<lparr>req_method = ''GET'', req_url = u, req_headers = hs\<rparr>"

definition offline :: network where
  "offline request = Inl (JsError ''Failed to fetch'')"

definition online :: "response \<Rightarrow> network" where
  "online r request = Inr r"

definition empty_state :: sw_state where
  "empty_state = \<lparr>caches = (\<lambda>cacheName. []), posted = []\<rparr>"

definition stored_response :: "string option \<Rightarrow> response" where
  "stored_response date =
     \<lparr>status = 200,
      headers = (case date of None \<Rightarrow> [] | Some d \<Rightarrow> [(''date'', d)]),
      body = ''{}''\<rparr>"

definition not_found_response :: response where
  "not_found_response = \<lparr>status = 404, headers = [], body = ''Not Found''\<rparr>"

definition page_key :: "nat \<Rightarrow> string" where
  "page_key i = ''https://meow.example/page'' @ string_of_nat i @ ''.html''"

definition numbered_cache :: "nat \<Rightarrow> response \<Rightarrow> cache" where
  "numbered_cache n r = map (\<lambda>i. (page_key i, r)) [0..<n]"

definition dynamic_state :: "cache \<Rightarrow> sw_state" where
  "dynamic_state cache =
     \<lparr>caches = (\<lambda>cacheName. if cacheName = CACHE_NAMES DYNAMIC then cache else []),
      posted = []\<rparr>"

text \<open>
  The clock reads Tue, 03 Nov 2026 00:00:00 GMT; \<open>sample_getTime\<close> is
  \<^verbatim>\<open>new Date(s).getTime()\<close> on the two date headers used below.
\<close>

definition sample_now :: int where
  "sample_now = 1793664000000"

definition six_days_ago :: string where
  "six_days_ago = ''Wed, 28 Oct 2026 00:00:00 GMT''"

definition eight_days_ago :: string where
  "eight_days_ago = ''Mon, 26 Oct 2026 00:00:00 GMT''"

definition sample_getTime :: date_parser where
  "sample_getTime s =
     (if s = six_days_ago then Some 1793145600000
      else if s = eight_days_ago then Some 1792972800000
      else None)"

text \<open>
  The invariant of the cache storage: no cache holds two entries of one key. It holds
  of the empty storage and every operation of the worker keeps it.
\<close>

definition wf_state :: "sw_state \<Rightarrow> bool" where
  "wf_state s = (\<forall>cacheName. distinct (cache_keys (caches s cacheName)))"

text \<open>Requests and states for the evaluations of the strategies.\<close>

definition about_request :: request where
  "about_request = get_request (site_url ''/about'' [] []) [(''accept'', ''text/html,application/xhtml+xml'')]"

definition status_request :: request where
  "status_request = get_request (site_url ''/api/status'' [] []) [(''accept'', ''application/json'')]"

definition about_state :: sw_state where
  "about_state = dynamic_state [(''https://meow.example/about'', stored_response None)]"

definition icon_request :: request where
  "icon_request = get_request (site_url ''/icons.svg'' [] ''#home'') []"

definition font_request :: request where
  "font_request =
     get_request
       \<lparr>protocol = ''https:'', hostname = ''fonts.gstatic.com'', port = [],
        pathname = ''/s/materialicons/v140/icons.woff2'', query = None,
        fragment = Some ''placeholder''\<rparr> []"

definition poster_request :: request where
  "poster_request = get_request (site_url ''/posters/show1.png'' [] []) []"

definition stylesheet_request :: request where
  "stylesheet_request =
     get_request
       \<lparr>protocol = ''https:'', hostname = ''fonts.googleapis.com'', port = [],
        pathname = ''/css2'', query = Some ''family=Roboto'', fragment = None\<rparr> []"

definition poster_empty_query_request :: request where
  "poster_empty_query_request = get_request (site_url ''/posters/show1.png'' ''?'' []) []"

definition poster_query_request :: request where
  "poster_query_request = get_request (site_url ''/posters/show1.png'' ''?src=cover.jpg'' []) []"

definition shows_query_request :: request where
  "shows_query_request = get_request (site_url ''/data/shows.json'' ''?poster=cover.jpg'' []) []"

definition poster_version_request :: request where
  "poster_version_request = get_request (site_url ''/posters/show1.png'' ''?v=2'' []) []"

definition shows_version_request :: request where
  "shows_version_request = get_request (site_url ''/data/shows.json'' ''?v=2'' []) []"

definition aged_cache :: cache where
  "aged_cache =
     [(page_key 0, stored_response (Some eight_days_ago)),
      (page_key 1, stored_response (Some six_days_ago)),
      (page_key 2, stored_response None),
      (page_key 3, stored_response (Some ''yesterday''))]"

definition extra_page :: string where
  "extra_page = ''https://meow.example/extra.html''"

definition extra_request :: request where
  "extra_request = get_request (site_url ''/extra.html'' [] []) []"

definition full_dynamic_state :: sw_state where
  "full_dynamic_state = dynamic_state (numbered_cache 50 (stored_response None))"

section \<open>Properties of the cache store, the eviction and the sweep\<close>

lemma cache_keys_delete: "cache_keys (cache_delete c k) = filter (\<lambda>x. x \<noteq> k) (cache_keys c)"
  by (induction c) (auto simp: cache_keys_def cache_delete_def)

lemma distinct_cache_delete: "distinct (cache_keys c) \<Longrightarrow> distinct (cache_keys (cache_delete c k))"
  by (simp add: cache_keys_delete)

lemma distinct_cache_put: "distinct (cache_keys c) \<Longrightarrow> distinct (cache_keys (cache_put c k r))"
  by (auto simp: cache_put_def cache_keys_delete) (simp add: cache_keys_def cache_keys_delete[unfolded cache_keys_def])

lemma cache_put_fresh: "key \<notin> set (cache_keys c) \<Longrightarrow> cache_put c key r = c @ [(key, r)]"
  by (simp add: cache_put_def cache_delete_def cache_keys_def) (rule filter_True, auto)

lemma put_all_fresh:
  "distinct (map fst es) \<Longrightarrow> set (map fst es) \<inter> set (cache_keys c) = {} \<Longrightarrow>
   put_all c es = c @ es"
proof (induction es arbitrary: c)
  case Nil
  then show ?case by (simp add: put_all_def)
next
  case (Cons e es)
  have f: "cache_put c (fst e) (snd e) = c @ [e]"
    using Cons.prems(2) by (simp add: cache_put_fresh)
  have "put_all (c @ [e]) es = (c @ [e]) @ es"
    using Cons.prems by (intro Cons.IH) (auto simp: cache_keys_def)
  with f show ?case by (simp add: put_all_def)
qed

lemma foldl_cache_delete: "foldl cache_delete c ks = filter (\<lambda>e. fst e \<notin> set ks) c"
proof (induction ks arbitrary: c)
  case Nil
  then show ?case by simp
next
  case (Cons k ks)
  show ?case
    unfolding foldl_Cons Cons.IH by (auto simp: cache_delete_def intro!: filter_cong)
qed

lemma filter_taken_keys:
  "distinct (map fst c) \<Longrightarrow> filter (\<lambda>e. fst e \<notin> set (take n (map fst c))) c = drop n c"
proof (induction c arbitrary: n)
  case Nil
  then show ?case by simp
next
  case (Cons x xs)
  show ?case
  proof (cases n)
    case 0
    then show ?thesis by simp
  next
    case (Suc m)
    have "filter (\<lambda>e. fst e \<notin> set (take n (map fst (x # xs)))) xs
          = filter (\<lambda>e. fst e \<notin> set (take m (map fst xs))) xs"
      using Cons.prems Suc by (intro filter_cong) (auto simp: image_iff)
    with Cons Suc show ?thesis by simp
  qed
qed

lemma manageCacheSize_drop:
  "distinct (cache_keys c) \<Longrightarrow> manageCacheSize c cn = drop (length c - cache_limit cn) c"
  by (simp add: manageCacheSize_def Let_def foldl_cache_delete cache_keys_def filter_taken_keys)

lemma cache_limit_pos: "0 < cache_limit cn"
  by (auto simp: cache_limit_def CACHE_LIMITS_def split: option.splits list.splits)

lemma cache_match_distinct:
  "distinct (cache_keys c) \<Longrightarrow> (cache_match c k = Some r) = ((k, r) \<in> set c)"
  by (simp add: cache_match_def cache_keys_def)

lemma expire_entry_eq:
  "expire_entry g t c k =
     (case cache_match c k of None \<Rightarrow> c
      | Some r \<Rightarrow> if expired g t r then cache_delete c k else c)"
  by (simp add: expire_entry_def expired_def split: option.splits)

lemma foldl_expire_entry:
  "distinct (cache_keys c) \<Longrightarrow>
   foldl (expire_entry g t) c ks = filter (\<lambda>e. \<not> (fst e \<in> set ks \<and> expired g t (snd e))) c"
proof (induction ks arbitrary: c)
  case Nil
  then show ?case by simp
next
  case (Cons k ks)
  let ?c' = "expire_entry g t c k"
  have step: "?c' = filter (\<lambda>e. \<not> (fst e = k \<and> expired g t (snd e))) c"
  proof (cases "cache_match c k")
    case None
    then have "k \<notin> fst ` set c" by (simp add: cache_match_def map_of_eq_None_iff)
    then have "filter (\<lambda>e. \<not> (fst e = k \<and> expired g t (snd e))) c = c"
      by (intro filter_True) auto
    with None show ?thesis by (simp add: expire_entry_eq)
  next
    case (Some r)
    then have mem: "(k, r) \<in> set c" using Cons.prems by (simp add: cache_match_distinct)
    have uniq: "\<And>e. e \<in> set c \<Longrightarrow> fst e = k \<Longrightarrow> snd e = r"
      using Cons.prems mem by (metis cache_keys_def eq_key_imp_eq_value prod.collapse)
    show ?thesis
    proof (cases "expired g t r")
      case True
      have "filter (\<lambda>e. \<not> (fst e = k \<and> expired g t (snd e))) c = filter (\<lambda>e. fst e \<noteq> k) c"
        using uniq True by (intro filter_cong) auto
      with Some True show ?thesis by (simp add: expire_entry_eq cache_delete_def)
    next
      case False
      have "filter (\<lambda>e. \<not> (fst e = k \<and> expired g t (snd e))) c = c"
        using uniq False by (intro filter_True) auto
      with Some False show ?thesis by (simp add: expire_entry_eq)
    qed
  qed
  have d: "distinct (cache_keys ?c')"
    unfolding step using Cons.prems by (simp add: cache_keys_def distinct_map_filter)
  show ?case
    by (simp add: Cons.IH[OF d]) (simp add: step, rule filter_cong, auto)
qed

lemma sweep_cache_filter:
  "distinct (cache_keys c) \<Longrightarrow> sweep_cache g t c = filter (\<lambda>e. \<not> expired g t (snd e)) c"
  by (simp add: sweep_cache_def foldl_expire_entry) (rule filter_cong, auto simp: cache_keys_def)

lemma foldl_set_cache:
  "distinct names \<Longrightarrow>
   foldl (\<lambda>st n. set_cache n (f n (caches st n)) st) s names
     = s\<lparr>caches := (\<lambda>n. if n \<in> set names then f n (caches s n) else caches s n)\<rparr>"
proof (induction names arbitrary: s)
  case Nil
  then show ?case by simp
next
  case (Cons a names)
  then show ?case by (auto simp: set_cache_def fun_eq_iff)
qed

lemma distinct_CACHE_NAMES_values: "distinct CACHE_NAMES_values"
  by (simp add: CACHE_NAMES_values_def CACHE_NAMES.simps)

lemma CACHE_NAMES_in_values: "CACHE_NAMES c \<in> set CACHE_NAMES_values"
  by (cases c) (simp_all add: CACHE_NAMES_values_def)

lemmas foldl_manage =
  foldl_set_cache[where f = "\<lambda>n c. manageCacheSize c n", OF distinct_CACHE_NAMES_values]

lemmas foldl_sweep =
  foldl_set_cache[where f = "\<lambda>n c. sweep_cache g t c", OF distinct_CACHE_NAMES_values] for g t

lemma performPeriodicCleanup_caches:
  "caches (performPeriodicCleanup g now s) cn =
     (if cn \<in> set CACHE_NAMES_values
      then sweep_cache g (now - 604800000) (manageCacheSize (caches s cn) cn)
      else caches s cn)"
  by (simp add: performPeriodicCleanup_def Let_def foldl_manage foldl_sweep)

lemma performPeriodicCleanup_posted: "posted (performPeriodicCleanup g now s) = posted s"
  by (simp add: performPeriodicCleanup_def Let_def foldl_manage foldl_sweep)

section \<open>Properties of the sample inputs\<close>

lemma decimal_value_string_of_nat: "decimal_value (string_of_nat n) = n"
proof (induction n rule: string_of_nat.induct)
  case (1 n)
  show ?case
  proof (cases "n < 10")
    case True
    then show ?thesis by (subst string_of_nat.simps) (simp add: decimal_value_def)
  next
    case False
    have d: "of_char (char_of (48 + n mod 10) :: char) = 48 + n mod 10"
      by simp
    from False 1 show ?thesis
      by (subst string_of_nat.simps) (simp add: decimal_value_def d)
  qed
qed

lemma inj_string_of_nat: "inj string_of_nat"
  by (rule inj_on_inverseI[where g = decimal_value]) (rule decimal_value_string_of_nat)

lemma inj_page_key: "inj page_key"
  by (rule injI) (simp add: page_key_def inj_eq[OF inj_string_of_nat])

lemma numbered_cache_keys: "cache_keys (numbered_cache n r) = map page_key [0..<n]"
  by (simp add: numbered_cache_def cache_keys_def comp_def)

lemma distinct_numbered_cache: "distinct (cache_keys (numbered_cache n r))"
  by (simp add: numbered_cache_keys distinct_map inj_on_subset[OF inj_page_key])

lemma dynamic_limit: "cache_limit (CACHE_NAMES DYNAMIC) = 50"
  by code_simp

lemma get_request_simps [simp]:
  "req_method (get_request u hs) = ''GET''"
  "req_url (get_request u hs) = u"
  "req_headers (get_request u hs) = hs"
  by (simp_all add: get_request_def)

lemma site_url_simps [simp]:
  "protocol (site_url p q f) = ''https:''"
  "hostname (site_url p q f) = ''meow.example''"
  "port (site_url p q f) = []"
  "pathname (site_url p q f) = p"
  "query (site_url p q f) = url_part q"
  "fragment (site_url p q f) = url_part f"
  by (simp_all add: site_url_def)

lemma site_search_simps [simp]:
  "search (site_url p [] f) = []"
  "search (site_url p (mark # c # q) f) = CHR ''?'' # c # q"
  by (simp_all add: search_def)

lemma site_request_url:
  "request_url (get_request (site_url p q f) hs) =
     ''https://meow.example'' @ p
       @ (case q of [] \<Rightarrow> [] | mark # part \<Rightarrow> CHR ''?'' # part)
       @ (case f of [] \<Rightarrow> [] | mark # part \<Rightarrow> CHR ''#'' # part)"
  by (cases q; cases f) (simp_all add: request_url_def href_def href_no_fragment_def)

lemma site_request_key:
  "request_key (get_request (site_url p q f) hs) =
     ''https://meow.example'' @ p @ (case q of [] \<Rightarrow> [] | mark # part \<Rightarrow> CHR ''?'' # part)"
  by (cases q) (simp_all add: request_key_def href_no_fragment_def)

lemma dynamic_state_caches [simp]: "caches (dynamic_state c) (CACHE_NAMES DYNAMIC) = c"
  by (simp add: dynamic_state_def)

lemma stored_response_date [simp]: "headers_get (headers (stored_response d)) ''date'' = d"
  by (cases d) (simp_all add: stored_response_def headers_get_def)

lemma ok_stored_response: "ok (stored_response d)"
  by (simp add: ok_def stored_response_def)

lemma empty_match: "cache_match (caches empty_state cacheName) key = None"
  by (simp add: empty_state_def cache_match_def)

lemma offline_rejects: "offline request = Inl (JsError ''Failed to fetch'')"
  by (simp add: offline_def)

lemma distinct_aged_cache: "distinct (cache_keys aged_cache)"
  by (simp add: aged_cache_def cache_keys_def inj_eq[OF inj_page_key])

lemma numbered_cache_51:
  "length (numbered_cache 51 r) = cache_limit (CACHE_NAMES DYNAMIC) + 1"
  "fst (hd (numbered_cache 51 r)) = page_key 0"
  "cache_match (numbered_cache 51 r) (page_key 0) = Some r"
  by (simp_all add: numbered_cache_def dynamic_limit upt_conv_Cons[of 0] cache_match_def
      del: upt_Suc)

lemma extra_page_fresh: "cache_delete (numbered_cache n r) extra_page = numbered_cache n r"
  by (simp add: cache_delete_def numbered_cache_def page_key_def extra_page_def)

lemma extra_page_patterns:
  "\<not> some_test IMAGE_CACHE_PATTERNS extra_page" "\<not> some_test JSON_CACHE_PATTERNS extra_page"
  by code_simp+

section \<open>More on the eviction and the periodic cleanup\<close>

lemma set_cache_caches [simp]: "caches (set_cache cn c s) cn = c"
  by (simp add: set_cache_def)

lemma broadcastMessage_caches [simp]: "caches (broadcastMessage t m u d s) = caches s"
  by (simp add: broadcastMessage_def)

lemma cache_match_filter:
  "distinct (cache_keys c) \<Longrightarrow>
   cache_match (filter P c) k =
     (case cache_match c k of None \<Rightarrow> None | Some v \<Rightarrow> if P (k, v) then Some v else None)"
  by (induction c)
     (auto simp: cache_match_def cache_keys_def map_of_eq_None_iff image_iff split: option.splits)

lemma distinct_manageCacheSize:
  "distinct (cache_keys c) \<Longrightarrow> distinct (cache_keys (manageCacheSize c cn))"
  by (simp add: manageCacheSize_drop) (simp add: cache_keys_def drop_map[symmetric])

lemma length_manageCacheSize:
  "distinct (cache_keys c) \<Longrightarrow> length (manageCacheSize c cn) = min (length c) (cache_limit cn)"
  by (simp add: manageCacheSize_drop)

lemma manageCacheSize_within_limit:
  "length c \<le> cache_limit cn \<Longrightarrow> manageCacheSize c cn = c"
  by (simp add: manageCacheSize_def cache_keys_def)

lemma cleanup_partition:
  assumes "cn \<in> set CACHE_NAMES_values" and "distinct (cache_keys (caches s cn))"
  shows "caches (performPeriodicCleanup g now s) cn =
           filter (\<lambda>e. \<not> expired g (now - 7 * day) (snd e)) (manageCacheSize (caches s cn) cn)"
  using assms
  by (simp add: performPeriodicCleanup_caches sweep_cache_filter distinct_manageCacheSize day_def)

lemma cleanup_match:
  assumes "cn \<in> set CACHE_NAMES_values" and "distinct (cache_keys (caches s cn))"
  shows "cache_match (caches (performPeriodicCleanup g now s) cn) k =
           (case cache_match (manageCacheSize (caches s cn) cn) k of
              None \<Rightarrow> None
            | Some v \<Rightarrow> if expired g (now - 7 * day) v then None else Some v)"
  using assms
  by (simp add: cleanup_partition cache_match_filter distinct_manageCacheSize split: option.splits)

lemma cleanup_evicts_oldest_over_limit:
  assumes "cn \<in> set CACHE_NAMES_values" and "distinct (cache_keys (caches s cn))"
      and "length (caches s cn) = cache_limit cn + 1"
  shows "cache_match (caches (performPeriodicCleanup g now s) cn) (fst (hd (caches s cn))) = None"
proof -
  obtain e es where c: "caches s cn = e # es" using assms(3) by (cases "caches s cn") auto
  have "manageCacheSize (caches s cn) cn = es"
    using assms(2,3) c by (simp add: manageCacheSize_drop)
  moreover have "cache_match es (fst e) = None"
    using assms(2) c by (simp add: cache_match_def cache_keys_def map_of_eq_None_iff)
  ultimately show ?thesis
    using c by (simp add: cleanup_match[OF assms(1,2)])
qed

lemma over_limit_oldest_evicted:
  "cache_match
     (caches (performPeriodicCleanup g now (dynamic_state (numbered_cache 51 r)))
        (CACHE_NAMES DYNAMIC))
     (page_key 0) = None"
  using cleanup_evicts_oldest_over_limit[where cn = "CACHE_NAMES DYNAMIC"
      and s = "dynamic_state (numbered_cache 51 r)" and g = g and now = now]
  by (simp add: CACHE_NAMES_in_values distinct_numbered_cache numbered_cache_51)

lemma cleanup_match_entry:
  assumes "cn \<in> set CACHE_NAMES_values" and "distinct (cache_keys (caches s cn))"
      and "(key, r) \<in> set (caches s cn)"
  shows "cache_match (caches (performPeriodicCleanup g now s) cn) key =
           (if expired g (now - 7 * day) r then None
            else cache_match (manageCacheSize (caches s cn) cn) key)"
proof (cases "cache_match (manageCacheSize (caches s cn) cn) key")
  case None
  then show ?thesis by (simp add: cleanup_match[OF assms(1,2)])
next
  case (Some v)
  then have "(key, v) \<in> set (manageCacheSize (caches s cn) cn)"
    using distinct_manageCacheSize[OF assms(2)] by (simp add: cache_match_distinct)
  then have "(key, v) \<in> set (caches s cn)"
    using assms(2) by (auto simp: manageCacheSize_drop dest: in_set_dropD)
  then have "v = r"
    using assms(2,3) by (metis cache_keys_def eq_key_imp_eq_value)
  with Some show ?thesis by (simp add: cleanup_match[OF assms(1,2)])
qed

lemma distinct_sweep_cache:
  "distinct (cache_keys c) \<Longrightarrow> distinct (cache_keys (sweep_cache g t c))"
  by (simp add: sweep_cache_filter) (simp add: cache_keys_def distinct_map_filter)

section \<open>The invariant of the cache storage\<close>

lemma wf_empty_state: "wf_state empty_state"
  by (simp add: wf_state_def empty_state_def cache_keys_def)

lemma wf_set_cache:
  "wf_state s \<Longrightarrow> distinct (cache_keys c) \<Longrightarrow> wf_state (set_cache cn c s)"
  by (simp add: wf_state_def set_cache_def)

lemma wf_broadcastMessage [simp]: "wf_state (broadcastMessage t m u d s) = wf_state s"
  by (simp add: wf_state_def)

lemma wf_distinct: "wf_state s \<Longrightarrow> distinct (cache_keys (caches s cn))"
  by (simp add: wf_state_def)

lemma wf_put:
  "wf_state s \<Longrightarrow> wf_state (set_cache cn (cache_put (caches s cn) k r) s)"
  by (simp add: wf_set_cache distinct_cache_put wf_distinct)

lemma wf_updateInBackground:
  "wf_state s \<Longrightarrow> wf_state (updateInBackground fetch request cn s)"
  by (simp add: updateInBackground_def wf_put split: sum.splits)

lemma wf_cacheFirstStrategy:
  "wf_state s \<Longrightarrow> wf_state (snd (cacheFirstStrategy fetch request cn s))"
  by (simp add: cacheFirstStrategy_def Let_def wf_updateInBackground wf_set_cache
      distinct_manageCacheSize distinct_cache_put wf_distinct split: option.splits sum.splits)

lemma wf_networkFirstStrategy:
  "wf_state s \<Longrightarrow> wf_state (snd (networkFirstStrategy fetch request s))"
  by (simp add: networkFirstStrategy_def split: option.splits sum.splits)

lemma wf_networkPromise:
  "wf_state s \<Longrightarrow> wf_state (snd (networkPromise fetch request cn cached s))"
  by (simp add: networkPromise_def Let_def wf_set_cache distinct_manageCacheSize
      distinct_cache_put wf_distinct split: option.splits sum.splits)

lemma wf_staleWhileRevalidateStrategy:
  "wf_state s \<Longrightarrow> wf_state (snd (staleWhileRevalidateStrategy fetch request cn s))"
  by (simp add: staleWhileRevalidateStrategy_def Let_def wf_networkPromise split: option.splits)

lemma wf_fetch_listener:
  "wf_state s \<Longrightarrow> wf_state (snd (fetch_listener fetch request s))"
  by (simp add: fetch_listener_def Let_def wf_cacheFirstStrategy wf_networkFirstStrategy
      wf_staleWhileRevalidateStrategy split: option.splits strategy.splits)

lemma wf_prefetch_one: "wf_state s \<Longrightarrow> wf_state (prefetch_one fetch_url s u)"
  by (simp add: prefetch_one_def Let_def wf_put split: sum.splits)

lemma wf_foldl_prefetch: "wf_state s \<Longrightarrow> wf_state (foldl (prefetch_one fetch_url) s urls)"
  by (induction urls arbitrary: s) (simp_all add: wf_prefetch_one)

lemma wf_handlePrefetchResources:
  "wf_state s \<Longrightarrow> wf_state (handlePrefetchResources fetch_url urls s)"
  by (simp add: handlePrefetchResources_def wf_foldl_prefetch)

lemma wf_performPeriodicCleanup:
  "wf_state s \<Longrightarrow> wf_state (performPeriodicCleanup g now s)"
  unfolding wf_state_def
  by (simp add: performPeriodicCleanup_caches distinct_sweep_cache distinct_manageCacheSize)

section \<open>The patterns are not anchored at the start\<close>

lemma toLowerCase_append: "toLowerCase (a @ b) = toLowerCase a @ toLowerCase b"
  by (simp add: toLowerCase_def)

lemma sublist_prepend: "sublist xs ys \<Longrightarrow> sublist xs (ps @ ys)"
  by (metis append.assoc sublist_def)

lemma contains_then_ends_prepend:
  "contains_then_ends a b s \<Longrightarrow> contains_then_ends a b (pre @ s)"
  by (induction pre) auto

lemma test_prepend: "test pattern s \<Longrightarrow> test pattern (pre @ s)"
  by (cases pattern)
     (auto simp: toLowerCase_append list_ex_iff
        intro: suffix_appendI sublist_prepend contains_then_ends_prepend)

lemma some_test_prepend: "some_test patterns s \<Longrightarrow> some_test patterns (pre @ s)"
  by (auto simp: some_test_def list_ex_iff intro: test_prepend)

lemma toLowerCase_question: "prefix ''?'' q \<Longrightarrow> CHR ''?'' \<in> set (toLowerCase q)"
  by (auto simp: prefix_def toLowerCase_def toLowerCase_char_def)

lemma image_extension_after_query:
  assumes "prefix ''?'' q" and "\<not> test image_extension_pattern q"
  shows "\<not> test image_extension_pattern (p @ q)"
proof
  assume "test image_extension_pattern (p @ q)"
  then obtain alt where alt: "alt \<in> set [''jpg'', ''jpeg'', ''png'', ''gif'', ''webp'', ''svg'', ''ico'']"
    and suf: "suffix (''.'' @ alt) (toLowerCase p @ toLowerCase q)"
    by (auto simp: image_extension_pattern_def list_ex_iff toLowerCase_append)
  from suf consider "suffix (''.'' @ alt) (toLowerCase q)"
    | e where "''.'' @ alt = e @ toLowerCase q"
    by (auto simp: suffix_append)
  then show False
  proof cases
    case 1
    with alt assms(2) show False
      by (simp add: image_extension_pattern_def list_ex_iff) blast
  next
    case 2
    then have "CHR ''?'' \<in> set (''.'' @ alt)"
      using toLowerCase_question[OF assms(1)] by simp
    with alt show False by auto
  qed
qed

lemma route_images:
  "route request = Some (CacheFirst (CACHE_NAMES IMAGES)) \<Longrightarrow>
   some_test IMAGE_CACHE_PATTERNS (pathname (req_url request) @ search (req_url request))"
  by (auto simp: route_def Let_def CACHE_NAMES.simps split: if_splits)

lemma request_url_ends_with_search:
  "fragment (req_url request) = None \<Longrightarrow> query (req_url request) \<noteq> Some [] \<Longrightarrow>
   \<exists>pre. request_url request = pre @ pathname (req_url request) @ search (req_url request)"
  by (cases "query (req_url request)")
     (simp_all add: request_url_def href_def href_no_fragment_def search_def)

section \<open>Stale-while-revalidate without a stale entry\<close>

lemma swr_failure_without_stale:
  assumes "cache_match (caches s cacheName) (request_key request) = None"
      and "fetch request = Inl error"
  shows "staleWhileRevalidateStrategy fetch request cacheName s =
           (Inr None,
            broadcastMessage CACHE_ERROR (error_message error) (Some (request_url request)) None s)"
  using assms by (simp add: staleWhileRevalidateStrategy_def networkPromise_def)

text \<open>
  Claim C1, evaluated on the code. The request for \<^verbatim>\<open>/data/shows.json\<close> is routed to
  stale-while-revalidate on the JSON partition; the partition is empty and the fetch
  rejects. The strategy broadcasts the cache-error event, and its promise resolves to
  \<^verbatim>\<open>undefined\<close> (\<open>Inr None\<close>): it does not reject, because the \<^verbatim>\<open>catch\<close> handler of the
  network promise returns \<^verbatim>\<open>cachedResponse\<close>.
\<close>

theorem swr_no_stale_network_failure:
  "route (get_request (site_url ''/data/shows.json'' [] []) []) =
     Some (StaleWhileRevalidate (CACHE_NAMES JSON))
   \<and> cache_match (caches empty_state (CACHE_NAMES JSON))
         (request_key (get_request (site_url ''/data/shows.json'' [] []) [])) = None
   \<and> fetch_listener offline (get_request (site_url ''/data/shows.json'' [] []) []) empty_state =
       (Some (Inr None),
        broadcastMessage CACHE_ERROR ''Failed to fetch''
          (Some ''https://meow.example/data/shows.json'') None empty_state)"
proof -
  let ?request = "get_request (site_url ''/data/shows.json'' [] []) []"
  have none: "cache_match (caches empty_state (CACHE_NAMES JSON)) (request_key ?request) = None"
    by (rule empty_match)
  have r: "route ?request = Some (StaleWhileRevalidate (CACHE_NAMES JSON))"
    by code_simp
  show ?thesis
    using swr_failure_without_stale[where fetch = offline, OF none offline_rejects] none r
    by (simp add: fetch_listener_def site_request_url)
qed

section \<open>Writes and the eviction that follows them\<close>

text \<open>
  The primary path of cache-first and the refresh of stale-while-revalidate call
  \<open>manageCacheSize\<close> after \<^verbatim>\<open>cache.put\<close>, so the partition they wrote is within its
  limit afterwards. The background refresh and the prefetch only put.
\<close>

lemma cacheFirst_write_within_limit:
  assumes "distinct (cache_keys (caches s cacheName))"
      and "cache_match (caches s cacheName) (request_key request) = None"
      and "fetch request = Inr networkResponse" and "ok networkResponse"
  shows "length (caches (snd (cacheFirstStrategy fetch request cacheName s)) cacheName)
           \<le> cache_limit cacheName"
  using assms
  by (simp add: cacheFirstStrategy_def Let_def length_manageCacheSize distinct_cache_put)

lemma swr_write_within_limit:
  assumes "distinct (cache_keys (caches s cacheName))"
      and "fetch request = Inr networkResponse" and "ok networkResponse"
  shows "length (caches (snd (staleWhileRevalidateStrategy fetch request cacheName s)) cacheName)
           \<le> cache_limit cacheName"
  using assms
  by (simp add: staleWhileRevalidateStrategy_def networkPromise_def Let_def
      length_manageCacheSize distinct_cache_put split: option.splits)

lemma updateInBackground_write:
  assumes "fetch request = Inr networkResponse" and "ok networkResponse"
  shows "caches (updateInBackground fetch request cacheName s) cacheName
           = cache_put (caches s cacheName) (request_key request) networkResponse"
  using assms by (simp add: updateInBackground_def)

lemma prefetch_one_write:
  assumes "fetch_url url_string = Inr r" and "ok r"
      and "\<not> some_test IMAGE_CACHE_PATTERNS url_string"
      and "\<not> some_test JSON_CACHE_PATTERNS url_string"
  shows "caches (prefetch_one fetch_url s url_string) (CACHE_NAMES DYNAMIC)
           = cache_put (caches s (CACHE_NAMES DYNAMIC)) url_string r"
  using assms by (simp add: prefetch_one_def Let_def)

lemma extra_request_via_listener:
  "route extra_request = Some (StaleWhileRevalidate (CACHE_NAMES DYNAMIC))
   \<and> request_key extra_request = extra_page
   \<and> length (caches (snd (fetch_listener (online (stored_response None)) extra_request
                             full_dynamic_state)) (CACHE_NAMES DYNAMIC)) = 50"
proof -
  have r: "route extra_request = Some (StaleWhileRevalidate (CACHE_NAMES DYNAMIC))"
    by code_simp
  have k: "request_key extra_request = extra_page"
    by (simp add: extra_request_def site_request_key extra_page_def)
  let ?c = "cache_put (numbered_cache 50 (stored_response None)) extra_page (stored_response None)"
  have "length ?c = 51"
    by (simp add: cache_put_def extra_page_fresh) (simp add: numbered_cache_def)
  then have l: "length (manageCacheSize ?c (CACHE_NAMES DYNAMIC)) = 50"
    by (simp add: length_manageCacheSize distinct_cache_put distinct_numbered_cache dynamic_limit)
  have "caches (snd (staleWhileRevalidateStrategy (online (stored_response None))
            extra_request (CACHE_NAMES DYNAMIC) full_dynamic_state)) (CACHE_NAMES DYNAMIC)
          = manageCacheSize ?c (CACHE_NAMES DYNAMIC)"
    by (simp add: staleWhileRevalidateStrategy_def networkPromise_def Let_def online_def
        ok_stored_response k full_dynamic_state_def split: option.splits)
  with l have "length (caches (snd (staleWhileRevalidateStrategy (online (stored_response None))
            extra_request (CACHE_NAMES DYNAMIC) full_dynamic_state)) (CACHE_NAMES DYNAMIC)) = 50"
    by simp
  with r k show ?thesis by (simp add: fetch_listener_def Let_def)
qed

text \<open>
  Claim C2, evaluated on the code. The Dynamic partition holds 50 entries, its limit.
  A prefetch of one more URL stores the response and leaves 51 entries in the
  partition: no eviction follows the write. (The same new entry written by the
  stale-while-revalidate refresh leaves 50, see \<open>extra_request_via_listener\<close>.)
\<close>

theorem prefetch_leaves_partition_over_limit:
  "cache_limit (CACHE_NAMES DYNAMIC) = 50
   \<and> length (caches full_dynamic_state (CACHE_NAMES DYNAMIC)) = 50
   \<and> caches (handlePrefetchResources (\<lambda>url_string. Inr (stored_response None)) [extra_page]
               full_dynamic_state) (CACHE_NAMES DYNAMIC)
       = numbered_cache 50 (stored_response None) @ [(extra_page, stored_response None)]
   \<and> length (caches (handlePrefetchResources (\<lambda>url_string. Inr (stored_response None))
                        [extra_page] full_dynamic_state) (CACHE_NAMES DYNAMIC)) = 51"
proof -
  have a: "length (caches full_dynamic_state (CACHE_NAMES DYNAMIC)) = 50"
    by (simp add: full_dynamic_state_def numbered_cache_def)
  have b: "caches (handlePrefetchResources (\<lambda>url_string. Inr (stored_response None)) [extra_page]
               full_dynamic_state) (CACHE_NAMES DYNAMIC)
       = numbered_cache 50 (stored_response None) @ [(extra_page, stored_response None)]"
    by (simp add: handlePrefetchResources_def prefetch_one_write ok_stored_response
        extra_page_patterns full_dynamic_state_def cache_put_def extra_page_fresh)
  have c: "length (caches (handlePrefetchResources (\<lambda>url_string. Inr (stored_response None))
                        [extra_page] full_dynamic_state) (CACHE_NAMES DYNAMIC)) = 51"
    unfolding b by (simp add: numbered_cache_def)
  from dynamic_limit a b c show ?thesis by (intro conjI)
qed

section \<open>Network-first\<close>

lemma about_route: "route about_request = Some NetworkFirst"
  by code_simp

lemma about_key: "request_key about_request = ''https://meow.example/about''"
  by (simp add: about_request_def site_request_key)

lemma about_url: "request_url about_request = ''https://meow.example/about''"
  by (simp add: about_request_def site_request_url)

lemma about_cached:
  "cache_match (caches about_state (CACHE_NAMES DYNAMIC)) (request_key about_request)
     = Some (stored_response None)"
  by (simp add: about_key about_state_def dynamic_state_def cache_match_def)

text \<open>
  Claim C3, as amended. When the fetch rejects, network-first falls back to the
  Dynamic partition: an entry found there is returned and an offline-fallback event is
  broadcast; without an entry, a request that accepts HTML gets the synthesized offline
  document (content type \<^verbatim>\<open>text/html\<close>); otherwise the rejection propagates. When the
  fetch settles with a response, of whatever status, that response is returned and the
  state is unchanged: a response that is not ok is not a failure for this strategy.
\<close>

theorem networkFirst_fallback_on_rejection:
  "(fetch request = Inr networkResponse \<longrightarrow>
      networkFirstStrategy fetch request s = (Inr networkResponse, s))
   \<and> (fetch request = Inl error
        \<and> cache_match (caches s (CACHE_NAMES DYNAMIC)) (request_key request) = Some cachedResponse \<longrightarrow>
      networkFirstStrategy fetch request s =
        (Inr cachedResponse,
         broadcastMessage OFFLINE_FALLBACK ''Serving cached version''
           (Some (request_url request)) None s))
   \<and> (fetch request = Inl error
        \<and> cache_match (caches s (CACHE_NAMES DYNAMIC)) (request_key request) = None
        \<and> accepts_html request \<longrightarrow>
      networkFirstStrategy fetch request s = (Inr offline_response, s))
   \<and> (fetch request = Inl error
        \<and> cache_match (caches s (CACHE_NAMES DYNAMIC)) (request_key request) = None
        \<and> \<not> accepts_html request \<longrightarrow>
      networkFirstStrategy fetch request s = (Inl error, s))
   \<and> headers_get (headers offline_response) ''content-type'' = Some ''text/html''"
  by (simp add: networkFirstStrategy_def offline_response_def headers_get_def)

theorem networkFirst_fallback_on_rejection_witness:
  "networkFirstStrategy (online not_found_response) about_request about_state
     = (Inr not_found_response, about_state)
   \<and> networkFirstStrategy offline about_request about_state
     = (Inr (stored_response None),
        broadcastMessage OFFLINE_FALLBACK ''Serving cached version''
          (Some ''https://meow.example/about'') None about_state)
   \<and> networkFirstStrategy offline about_request empty_state = (Inr offline_response, empty_state)
   \<and> networkFirstStrategy offline status_request empty_state
     = (Inl (JsError ''Failed to fetch''), empty_state)"
proof -
  have on: "online not_found_response about_request = Inr not_found_response"
    by (simp add: online_def)
  have html: "accepts_html about_request"
    by (simp add: about_request_def accepts_html_def headers_get_def)
  have nohtml: "\<not> accepts_html status_request"
    unfolding status_request_def accepts_html_def headers_get_def by code_simp
  have a: "networkFirstStrategy (online not_found_response) about_request about_state
             = (Inr not_found_response, about_state)"
    using networkFirst_fallback_on_rejection[THEN conjunct1] on by (rule mp)
  have b: "networkFirstStrategy offline about_request about_state
             = (Inr (stored_response None),
                broadcastMessage OFFLINE_FALLBACK ''Serving cached version''
                  (Some ''https://meow.example/about'') None about_state)"
    using networkFirst_fallback_on_rejection[THEN conjunct2, THEN conjunct1, THEN mp,
        OF conjI, OF offline_rejects about_cached]
    by (simp only: about_url)
  have c: "networkFirstStrategy offline about_request empty_state = (Inr offline_response, empty_state)"
    using networkFirst_fallback_on_rejection[THEN conjunct2, THEN conjunct2, THEN conjunct1, THEN mp,
        OF conjI, OF offline_rejects conjI, OF empty_match html] .
  have d: "networkFirstStrategy offline status_request empty_state
             = (Inl (JsError ''Failed to fetch''), empty_state)"
    using networkFirst_fallback_on_rejection[THEN conjunct2, THEN conjunct2, THEN conjunct2,
        THEN conjunct1, THEN mp, OF conjI, OF offline_rejects conjI, OF empty_match nohtml] .
  from a b c d show ?thesis by (intro conjI)
qed

text \<open>
  The claim as stated fails: the network answers 404 for a request whose entry is in
  the Dynamic partition; the listener returns the 404 response, not the entry, and
  broadcasts nothing.
\<close>

theorem networkFirst_returns_non_ok_response:
  "route about_request = Some NetworkFirst
   \<and> \<not> ok not_found_response
   \<and> cache_match (caches about_state (CACHE_NAMES DYNAMIC)) (request_key about_request)
       = Some (stored_response None)
   \<and> fetch_listener (online not_found_response) about_request about_state
       = (Some (Inr (Some not_found_response)), about_state)
   \<and> posted about_state = []"
proof -
  have a: "\<not> ok not_found_response"
    by (simp add: ok_def not_found_response_def)
  have b: "fetch_listener (online not_found_response) about_request about_state
             = (Some (Inr (Some not_found_response)), about_state)"
    by (simp add: about_route fetch_listener_def networkFirstStrategy_def online_def)
  have c: "posted about_state = []"
    by (simp add: about_state_def dynamic_state_def)
  from about_route a about_cached b c show ?thesis by (intro conjI)
qed

section \<open>The classifier\<close>



section \<open>Eviction of one entry\<close>

text \<open>
  Claim C5. An eviction pass on a partition that holds one entry more than its limit
  removes exactly the first entry of the insertion order and leaves as many entries
  as the limit allows. The keys of a cache are distinct (\<open>wf_state\<close> is an invariant
  of the worker); the limits are those of \<open>cache_limit\<close>, 5000 or 50.
\<close>

theorem manageCacheSize_one_over_limit:
  assumes "distinct (cache_keys cache)"
      and "length cache = cache_limit cacheName + 1"
  shows "manageCacheSize cache cacheName = tl cache
         \<and> length (manageCacheSize cache cacheName) = cache_limit cacheName
         \<and> cache_match (manageCacheSize cache cacheName) (fst (hd cache)) = None"
proof -
  have eq: "manageCacheSize cache cacheName = tl cache"
    using assms by (simp add: manageCacheSize_drop drop_Suc)
  obtain e es where c: "cache = e # es" using assms(2) by (cases cache) auto
  have "fst e \<notin> fst ` set es" using assms(1) c by (simp add: cache_keys_def)
  then have "cache_match es (fst e) = None" by (simp add: cache_match_def map_of_eq_None_iff)
  with eq c assms(2) show ?thesis by simp
qed

theorem manageCacheSize_one_over_limit_witness:
  "length (put_all [] (numbered_cache 51 (stored_response None)))
     = cache_limit (CACHE_NAMES DYNAMIC) + 1
   \<and> manageCacheSize (put_all [] (numbered_cache 51 (stored_response None))) (CACHE_NAMES DYNAMIC)
       = map (\<lambda>i. (page_key i, stored_response None)) [1..<51]
   \<and> length (manageCacheSize (put_all [] (numbered_cache 51 (stored_response None)))
               (CACHE_NAMES DYNAMIC)) = 50
   \<and> cache_match (manageCacheSize (put_all [] (numbered_cache 51 (stored_response None)))
                    (CACHE_NAMES DYNAMIC)) (page_key 0) = None"
proof -
  let ?c = "put_all [] (numbered_cache 51 (stored_response None))"
  have c: "?c = numbered_cache 51 (stored_response None)"
    using put_all_fresh[of "numbered_cache 51 (stored_response None)" "[]"]
    by (simp add: distinct_numbered_cache[unfolded cache_keys_def] cache_keys_def)
  have d: "distinct (cache_keys ?c)"
    unfolding c by (rule distinct_numbered_cache)
  have len: "length ?c = cache_limit (CACHE_NAMES DYNAMIC) + 1"
    unfolding c by (simp add: numbered_cache_def dynamic_limit)
  have tl: "tl ?c = map (\<lambda>i. (page_key i, stored_response None)) [1..<51]"
    unfolding c by (simp add: numbered_cache_def upt_conv_Cons[of 0] map_tl[symmetric] del: upt_Suc)
  have hd: "fst (hd ?c) = page_key 0"
    unfolding c by (simp add: numbered_cache_def upt_conv_Cons[of 0] del: upt_Suc)
  note r = manageCacheSize_one_over_limit[OF d len]
  have a: "manageCacheSize ?c (CACHE_NAMES DYNAMIC)
             = map (\<lambda>i. (page_key i, stored_response None)) [1..<51]"
    using r[THEN conjunct1] tl by (rule trans)
  have b: "length (manageCacheSize ?c (CACHE_NAMES DYNAMIC)) = 50"
    using r[THEN conjunct2, THEN conjunct1] by (simp only: dynamic_limit)
  have e: "cache_match (manageCacheSize ?c (CACHE_NAMES DYNAMIC)) (page_key 0) = None"
    using r[THEN conjunct2, THEN conjunct2] by (simp only: hd)
  from len a b e show ?thesis by (intro conjI)
qed

section \<open>Streaming media\<close>

text \<open>
  Claim C6. A request that the listener intercepts (method GET, protocol starting with
  \<^verbatim>\<open>http\<close>) and that matches a streaming-media pattern is handled by the
  network-first strategy, and when the fetch settles with a response that response is
  returned and the state is unchanged: no partition is written and nothing is
  broadcast.
\<close>

theorem streaming_media_network_first:
  assumes "req_method request = ''GET''"
      and "prefix ''http'' (protocol (req_url request))"
      and "some_test NETWORK_FIRST_PATTERNS (pathname (req_url request) @ search (req_url request))"
      and "fetch request = Inr networkResponse"
  shows "route request = Some NetworkFirst
         \<and> networkFirstStrategy fetch request s = (Inr networkResponse, s)
         \<and> fetch_listener fetch request s = (Some (Inr (Some networkResponse)), s)"
  using assms by (simp add: route_def fetch_listener_def networkFirstStrategy_def Let_def)

theorem streaming_media_network_first_witness:
  "route (get_request (site_url ''/hls/episode1.m3u8'' [] []) []) = Some NetworkFirst
   \<and> fetch_listener (online (stored_response None))
        (get_request (site_url ''/hls/episode1.m3u8'' [] []) [])
        (dynamic_state (numbered_cache 2 (stored_response None)))
      = (Some (Inr (Some (stored_response None))),
         dynamic_state (numbered_cache 2 (stored_response None)))"
proof -
  let ?request = "get_request (site_url ''/hls/episode1.m3u8'' [] []) []"
  have m: "req_method ?request = ''GET''" by simp
  have p: "prefix ''http'' (protocol (req_url ?request))" by simp
  have t: "some_test NETWORK_FIRST_PATTERNS
             (pathname (req_url ?request) @ search (req_url ?request))"
    by code_simp
  have f: "online (stored_response None) ?request = Inr (stored_response None)"
    by (simp add: online_def)
  show ?thesis
    using streaming_media_network_first[where fetch = "online (stored_response None)", OF m p t f]
    by simp
qed

section \<open>The age rule of the periodic cleanup\<close>

text \<open>
  Claim C7, as amended. In every partition of \<open>CACHE_NAMES\<close>, an entry whose response
  has a non-empty \<^verbatim>\<open>date\<close> header that parses to a time more than 7 days before \<open>now\<close>
  is gone after the periodic cleanup, whatever the count of the partition; an entry
  whose time is within the 7 days is there after the cleanup exactly when it is there
  after the count-based pass (the cleanup runs \<open>manageCacheSize\<close> on each partition
  before it looks at the dates), so it is retained in a partition that does not exceed
  its count limit when the cleanup starts. An entry of 8 days is removed, and an entry
  of 6 days is retained in a partition within its limit.
\<close>

theorem periodic_cleanup_age_rule:
  assumes "cacheName \<in> set CACHE_NAMES_values"
      and "distinct (cache_keys (caches s cacheName))"
      and "(key, r) \<in> set (caches s cacheName)"
      and "headers_get (headers r) ''date'' = Some dateHeader"
      and "dateHeader \<noteq> []"
      and "getTime dateHeader = Some responseDate"
  shows "(responseDate < now - 7 * day \<longrightarrow>
            cache_match (caches (performPeriodicCleanup getTime now s) cacheName) key = None)
         \<and> (now - 7 * day \<le> responseDate \<longrightarrow>
            cache_match (caches (performPeriodicCleanup getTime now s) cacheName) key
              = cache_match (manageCacheSize (caches s cacheName) cacheName) key)
         \<and> (now - 7 * day \<le> responseDate
              \<and> length (caches s cacheName) \<le> cache_limit cacheName \<longrightarrow>
            cache_match (caches (performPeriodicCleanup getTime now s) cacheName) key = Some r)
         \<and> (responseDate = now - 8 * day \<longrightarrow>
            cache_match (caches (performPeriodicCleanup getTime now s) cacheName) key = None)
         \<and> (responseDate = now - 6 * day
              \<and> length (caches s cacheName) \<le> cache_limit cacheName \<longrightarrow>
            cache_match (caches (performPeriodicCleanup getTime now s) cacheName) key = Some r)"
proof -
  let ?after = "cache_match (caches (performPeriodicCleanup getTime now s) cacheName) key"
  have m: "cache_match (caches s cacheName) key = Some r"
    using assms(2,3) by (simp add: cache_match_distinct)
  have ex: "expired getTime (now - 7 * day) r \<longleftrightarrow> responseDate < now - 7 * day"
    using assms(4,5,6) by (simp add: expired_def)
  note after = cleanup_match_entry[OF assms(1,2,3), where g = getTime and now = now]
  have old: "?after = None" if "responseDate < now - 7 * day"
    using that ex after by simp
  have kept: "?after = cache_match (manageCacheSize (caches s cacheName) cacheName) key"
    if "now - 7 * day \<le> responseDate"
    using that ex after by simp
  have recent: "?after = Some r"
    if "now - 7 * day \<le> responseDate" and "length (caches s cacheName) \<le> cache_limit cacheName"
    using kept[OF that(1)] that(2) m by (simp add: manageCacheSize_within_limit)
  have d8: "now - 8 * day < now - 7 * day" and d6: "now - 7 * day \<le> now - 6 * day"
    by (simp_all add: day_def)
  from old kept recent d8 d6 show ?thesis by blast
qed

theorem periodic_cleanup_age_rule_witness:
  "cache_match
     (caches (performPeriodicCleanup sample_getTime sample_now (dynamic_state aged_cache))
        (CACHE_NAMES DYNAMIC)) (page_key 0) = None
   \<and> cache_match
     (caches (performPeriodicCleanup sample_getTime sample_now (dynamic_state aged_cache))
        (CACHE_NAMES DYNAMIC)) (page_key 1) = Some (stored_response (Some six_days_ago))"
proof -
  let ?s = "dynamic_state aged_cache"
  have d: "distinct (cache_keys (caches ?s (CACHE_NAMES DYNAMIC)))"
    by (simp add: distinct_aged_cache)
  have m0: "(page_key 0, stored_response (Some eight_days_ago)) \<in> set (caches ?s (CACHE_NAMES DYNAMIC))"
    and m1: "(page_key 1, stored_response (Some six_days_ago)) \<in> set (caches ?s (CACHE_NAMES DYNAMIC))"
    by (simp_all add: aged_cache_def)
  have h8: "headers_get (headers (stored_response (Some eight_days_ago))) ''date'' = Some eight_days_ago"
    and h6: "headers_get (headers (stored_response (Some six_days_ago))) ''date'' = Some six_days_ago"
    by simp_all
  have n8: "eight_days_ago \<noteq> []" and n6: "six_days_ago \<noteq> []"
    by (simp_all add: eight_days_ago_def six_days_ago_def)
  have t8: "sample_getTime eight_days_ago = Some (sample_now - 8 * day)"
    and t6: "sample_getTime six_days_ago = Some (sample_now - 6 * day)"
    by (simp_all add: sample_getTime_def sample_now_def day_def eight_days_ago_def six_days_ago_def)
  have l: "length (caches ?s (CACHE_NAMES DYNAMIC)) \<le> cache_limit (CACHE_NAMES DYNAMIC)"
    by (simp add: aged_cache_def dynamic_limit)
  have a: "cache_match
     (caches (performPeriodicCleanup sample_getTime sample_now ?s) (CACHE_NAMES DYNAMIC))
     (page_key 0) = None"
    using periodic_cleanup_age_rule[where getTime = sample_getTime and now = sample_now,
        OF CACHE_NAMES_in_values d m0 h8 n8 t8,
        THEN conjunct2, THEN conjunct2, THEN conjunct2, THEN conjunct1]
    by simp
  have b: "cache_match
     (caches (performPeriodicCleanup sample_getTime sample_now ?s) (CACHE_NAMES DYNAMIC))
     (page_key 1) = Some (stored_response (Some six_days_ago))"
    using periodic_cleanup_age_rule[where getTime = sample_getTime and now = sample_now,
        OF CACHE_NAMES_in_values d m1 h6 n6 t6,
        THEN conjunct2, THEN conjunct2, THEN conjunct2, THEN conjunct2] l
    by simp
  from a b show ?thesis by (intro conjI)
qed

text \<open>
  The claim as stated fails: the Dynamic partition holds 51 entries, all dated 6 days
  ago; the periodic cleanup removes the oldest of them.
\<close>

theorem periodic_cleanup_evicts_recent_entry:
  "cache_match
     (caches (dynamic_state (numbered_cache 51 (stored_response (Some six_days_ago))))
        (CACHE_NAMES DYNAMIC)) (page_key 0) = Some (stored_response (Some six_days_ago))
   \<and> headers_get (headers (stored_response (Some six_days_ago))) ''date'' = Some six_days_ago
   \<and> sample_getTime six_days_ago = Some (sample_now - 6 * day)
   \<and> cache_match
       (caches
          (performPeriodicCleanup sample_getTime sample_now
             (dynamic_state (numbered_cache 51 (stored_response (Some six_days_ago)))))
          (CACHE_NAMES DYNAMIC)) (page_key 0) = None"
proof -
  have a: "cache_match
     (caches (dynamic_state (numbered_cache 51 (stored_response (Some six_days_ago))))
        (CACHE_NAMES DYNAMIC)) (page_key 0) = Some (stored_response (Some six_days_ago))"
    by (simp add: numbered_cache_51)
  have b: "headers_get (headers (stored_response (Some six_days_ago))) ''date'' = Some six_days_ago"
    by simp
  have c: "sample_getTime six_days_ago = Some (sample_now - 6 * day)"
    by (simp add: sample_getTime_def sample_now_def day_def)
  from a b c over_limit_oldest_evicted show ?thesis by (intro conjI)
qed

section \<open>The fallback of cache-first\<close>

lemma icon_route: "route icon_request = Some (CacheFirst (CACHE_NAMES IMAGES))"
  by code_simp

lemma font_route: "route font_request = Some (CacheFirst (CACHE_NAMES FONTS))"
  by code_simp

lemma poster_route: "route poster_request = Some (CacheFirst (CACHE_NAMES IMAGES))"
  by code_simp

lemma poster_empty_query_route:
  "route poster_empty_query_request = Some (CacheFirst (CACHE_NAMES IMAGES))"
  by code_simp

lemma icon_url_no_match: "\<not> some_test IMAGE_CACHE_PATTERNS (request_url icon_request)"
  by code_simp

lemma poster_empty_query_url_no_match:
  "\<not> some_test IMAGE_CACHE_PATTERNS (request_url poster_empty_query_request)"
  by code_simp

lemma font_url_match: "some_test IMAGE_CACHE_PATTERNS (request_url font_request)"
  by code_simp

text \<open>
  What the \<^verbatim>\<open>catch\<close> block does when no entry is cached and the fetch rejects: it
  broadcasts a cache-error event and tests the image patterns against the whole
  \<^verbatim>\<open>request.url\<close>; the placeholder is returned when one matches, else the rejection
  propagates.
\<close>

lemma cacheFirst_fallback_by_request_url:
  assumes "cache_match (caches s cacheName) (request_key request) = None"
      and "fetch request = Inl error"
  shows "cacheFirstStrategy fetch request cacheName s =
           (if some_test IMAGE_CACHE_PATTERNS (request_url request)
            then Inr placeholder_response else Inl error,
            broadcastMessage CACHE_ERROR (error_message error) (Some (request_url request)) None s)"
  using assms by (simp add: cacheFirstStrategy_def Let_def)

lemma placeholder_content_type:
  "headers_get (headers placeholder_response) ''content-type'' = Some ''image/svg+xml''"
  by (simp add: placeholder_response_def headers_get_def)

text \<open>
  The router tests the image patterns against pathname plus query. The two tests agree
  on a request routed to the Image class when \<^verbatim>\<open>request.url\<close> ends with pathname plus
  query, that is, when the URL has no fragment (not even an empty one) and no empty
  query.
\<close>

lemma image_class_fallback:
  assumes "route request = Some (CacheFirst (CACHE_NAMES IMAGES))"
      and "fragment (req_url request) = None" and "query (req_url request) \<noteq> Some []"
      and "cache_match (caches s cacheName) (request_key request) = None"
      and "fetch request = Inl error"
  shows "fst (cacheFirstStrategy fetch request cacheName s) = Inr placeholder_response"
proof -
  have "some_test IMAGE_CACHE_PATTERNS (request_url request)"
    using route_images[OF assms(1)] request_url_ends_with_search[OF assms(2,3)]
    by (auto simp: some_test_prepend)
  then show ?thesis
    by (simp add: cacheFirst_fallback_by_request_url[where fetch = fetch, OF assms(4,5)])
qed

lemma stylesheet_request_propagates:
  "route stylesheet_request = Some (CacheFirst (CACHE_NAMES FONTS))
   \<and> fst (fetch_listener offline stylesheet_request empty_state)
       = Some (Inl (JsError ''Failed to fetch''))"
proof -
  have r: "route stylesheet_request = Some (CacheFirst (CACHE_NAMES FONTS))"
    by code_simp
  have n: "\<not> some_test IMAGE_CACHE_PATTERNS (request_url stylesheet_request)"
    by code_simp
  from r n show ?thesis
    by (simp add: fetch_listener_def Let_def
        cacheFirst_fallback_by_request_url[where fetch = offline, OF empty_match offline_rejects])
qed

lemma poster_request_gets_placeholder:
  "fetch_listener offline poster_request empty_state =
     (Some (Inr (Some placeholder_response)),
      broadcastMessage CACHE_ERROR ''Failed to fetch''
        (Some ''https://meow.example/posters/show1.png'') None empty_state)"
proof -
  have f: "fragment (req_url poster_request) = None"
    and q: "query (req_url poster_request) \<noteq> Some []"
    and u: "request_url poster_request = ''https://meow.example/posters/show1.png''"
    by (simp_all add: poster_request_def site_request_url)
  have "some_test IMAGE_CACHE_PATTERNS (request_url poster_request)"
    using route_images[OF poster_route] request_url_ends_with_search[OF f q]
    by (auto simp: some_test_prepend)
  then show ?thesis
    by (simp add: fetch_listener_def poster_route Let_def u
        cacheFirst_fallback_by_request_url[where fetch = offline, OF empty_match offline_rejects])
qed

text \<open>
  Claim C8, evaluated on the code. Three requests, each with the partition empty and the
  fetch rejecting. The image request \<^verbatim>\<open>/icons.svg#home\<close> and the image request
  \<^verbatim>\<open>/posters/show1.png?\<close> are routed to cache-first on the Images partition, and the
  listener rejects with the error instead of returning the placeholder: the
  end-anchored extension pattern fails on \<^verbatim>\<open>request.url\<close>, which ends with the fragment
  or the question mark. The font request, routed to cache-first on the Fonts partition,
  has the word \<^verbatim>\<open>placeholder\<close> in its fragment and gets the placeholder graphic
  instead of the error.
\<close>

theorem cacheFirst_fallback_tests_full_url:
  "route icon_request = Some (CacheFirst (CACHE_NAMES IMAGES))
   \<and> request_url icon_request = ''https://meow.example/icons.svg#home''
   \<and> cache_match (caches empty_state (CACHE_NAMES IMAGES)) (request_key icon_request) = None
   \<and> fst (fetch_listener offline icon_request empty_state)
       = Some (Inl (JsError ''Failed to fetch''))
   \<and> route poster_empty_query_request = Some (CacheFirst (CACHE_NAMES IMAGES))
   \<and> request_url poster_empty_query_request = ''https://meow.example/posters/show1.png?''
   \<and> fst (fetch_listener offline poster_empty_query_request empty_state)
       = Some (Inl (JsError ''Failed to fetch''))
   \<and> route font_request = Some (CacheFirst (CACHE_NAMES FONTS))
   \<and> cache_match (caches empty_state (CACHE_NAMES FONTS)) (request_key font_request) = None
   \<and> fst (fetch_listener offline font_request empty_state)
       = Some (Inr (Some placeholder_response))"
proof -
  have u: "request_url icon_request = ''https://meow.example/icons.svg#home''"
    by (simp add: icon_request_def site_request_url)
  have v: "request_url poster_empty_query_request = ''https://meow.example/posters/show1.png?''"
    by (simp add: poster_empty_query_request_def site_request_url)
  have a: "fst (fetch_listener offline icon_request empty_state)
             = Some (Inl (JsError ''Failed to fetch''))"
    using icon_url_no_match
    by (simp add: fetch_listener_def icon_route Let_def
        cacheFirst_fallback_by_request_url[where fetch = offline, OF empty_match offline_rejects])
  have b: "fst (fetch_listener offline poster_empty_query_request empty_state)
             = Some (Inl (JsError ''Failed to fetch''))"
    using poster_empty_query_url_no_match
    by (simp add: fetch_listener_def poster_empty_query_route Let_def
        cacheFirst_fallback_by_request_url[where fetch = offline, OF empty_match offline_rejects])
  have c: "fst (fetch_listener offline font_request empty_state)
             = Some (Inr (Some placeholder_response))"
    using font_url_match
    by (simp add: fetch_listener_def font_route Let_def
        cacheFirst_fallback_by_request_url[where fetch = offline, OF empty_match offline_rejects])
  from icon_route u empty_match a poster_empty_query_route v b font_route empty_match c
  show ?thesis by (intro conjI)
qed

section \<open>Image extensions and query strings\<close>

lemma poster_version_facts:
  "prefix ''?'' (search (req_url poster_version_request))
   \<and> \<not> test image_extension_pattern (search (req_url poster_version_request))
   \<and> \<not> sublist ''share_image_url''
         (pathname (req_url poster_version_request) @ search (req_url poster_version_request))
   \<and> \<not> sublist ''placeholder''
         (pathname (req_url poster_version_request) @ search (req_url poster_version_request))"
  by code_simp

lemma shows_version_facts:
  "suffix ''.json'' (pathname (req_url shows_version_request))
   \<and> \<not> some_test NETWORK_FIRST_PATTERNS
         (pathname (req_url shows_version_request) @ search (req_url shows_version_request))
   \<and> \<not> some_test IMAGE_CACHE_PATTERNS
         (pathname (req_url shows_version_request) @ search (req_url shows_version_request))"
  by code_simp

text \<open>
  Claim C9, as amended. For an intercepted GET request with a non-empty query string
  (whatever its pathname, in particular one that ends in an image extension): if the
  query string does not itself end in an image extension and neither image hint occurs
  in pathname plus query, no image pattern matches and the request is not routed to the
  Image class. The JSON patterns are tested against the pathname alone: a request
  whose pathname ends in \<^verbatim>\<open>.json\<close> is handled as structured data whatever its query
  string, provided no streaming-media and no image pattern matches pathname plus query.
\<close>

theorem image_extension_tested_with_query:
  assumes "req_method request = ''GET''"
      and "prefix ''http'' (protocol (req_url request))"
  shows "(prefix ''?'' (search (req_url request))
          \<and> \<not> test image_extension_pattern (search (req_url request))
          \<and> \<not> sublist ''share_image_url'' (pathname (req_url request) @ search (req_url request))
          \<and> \<not> sublist ''placeholder'' (pathname (req_url request) @ search (req_url request))
          \<longrightarrow> \<not> some_test IMAGE_CACHE_PATTERNS (pathname (req_url request) @ search (req_url request))
              \<and> route request \<noteq> Some (CacheFirst (CACHE_NAMES IMAGES)))
         \<and> (suffix ''.json'' (pathname (req_url request))
          \<and> \<not> some_test NETWORK_FIRST_PATTERNS (pathname (req_url request) @ search (req_url request))
          \<and> \<not> some_test IMAGE_CACHE_PATTERNS (pathname (req_url request) @ search (req_url request))
          \<longrightarrow> route request = Some (StaleWhileRevalidate (CACHE_NAMES JSON)))"
proof -
  let ?u = "req_url request"
  have a: "\<not> some_test IMAGE_CACHE_PATTERNS (pathname ?u @ search ?u)
           \<and> route request \<noteq> Some (CacheFirst (CACHE_NAMES IMAGES))"
    if "prefix ''?'' (search ?u)" and "\<not> test image_extension_pattern (search ?u)"
      and "\<not> sublist ''share_image_url'' (pathname ?u @ search ?u)"
      and "\<not> sublist ''placeholder'' (pathname ?u @ search ?u)"
  proof -
    have n: "\<not> some_test IMAGE_CACHE_PATTERNS (pathname ?u @ search ?u)"
      using image_extension_after_query[OF that(1,2)] that(3,4)
      by (simp add: some_test_def IMAGE_CACHE_PATTERNS_def)
    then show ?thesis
      using assms by (simp add: route_def Let_def CACHE_NAMES.simps)
  qed
  have b: "route request = Some (StaleWhileRevalidate (CACHE_NAMES JSON))"
    if "suffix ''.json'' (pathname ?u)"
      and "\<not> some_test NETWORK_FIRST_PATTERNS (pathname ?u @ search ?u)"
      and "\<not> some_test IMAGE_CACHE_PATTERNS (pathname ?u @ search ?u)"
    using assms that by (simp add: route_def Let_def some_test_def JSON_CACHE_PATTERNS_def)
  from a b show ?thesis by blast
qed

theorem image_extension_tested_with_query_witness:
  "test image_extension_pattern (pathname (req_url poster_version_request))
   \<and> search (req_url poster_version_request) = ''?v=2''
   \<and> route poster_version_request \<noteq> Some (CacheFirst (CACHE_NAMES IMAGES))
   \<and> route poster_version_request = Some NetworkFirst
   \<and> search (req_url shows_version_request) = ''?v=2''
   \<and> route shows_version_request = Some (StaleWhileRevalidate (CACHE_NAMES JSON))"
proof -
  have m1: "req_method poster_version_request = ''GET''"
    and p1: "prefix ''http'' (protocol (req_url poster_version_request))"
    and s1: "search (req_url poster_version_request) = ''?v=2''"
    by (simp_all add: poster_version_request_def)
  have m2: "req_method shows_version_request = ''GET''"
    and p2: "prefix ''http'' (protocol (req_url shows_version_request))"
    and s2: "search (req_url shows_version_request) = ''?v=2''"
    by (simp_all add: shows_version_request_def)
  have e: "test image_extension_pattern (pathname (req_url poster_version_request))"
    by code_simp
  have r: "route poster_version_request = Some NetworkFirst"
    by code_simp
  have a: "route poster_version_request \<noteq> Some (CacheFirst (CACHE_NAMES IMAGES))"
    using image_extension_tested_with_query[OF m1 p1, THEN conjunct1, THEN mp,
        OF poster_version_facts, THEN conjunct2] .
  have b: "route shows_version_request = Some (StaleWhileRevalidate (CACHE_NAMES JSON))"
    using image_extension_tested_with_query[OF m2 p2, THEN conjunct2, THEN mp,
        OF shows_version_facts] .
  from e s1 a r s2 b show ?thesis by (intro conjI)
qed

text \<open>
  The claim as stated fails in both halves: \<^verbatim>\<open>/posters/show1.png?src=cover.jpg\<close> is
  routed to the Image class, because the query string ends in an image extension; and
  \<^verbatim>\<open>/data/shows.json?poster=cover.jpg\<close> is routed to the Image class as well, not to
  structured data.
\<close>

theorem query_ending_in_image_extension:
  "req_method poster_query_request = ''GET''
   \<and> test image_extension_pattern (pathname (req_url poster_query_request))
   \<and> search (req_url poster_query_request) = ''?src=cover.jpg''
   \<and> \<not> sublist ''share_image_url''
         (pathname (req_url poster_query_request) @ search (req_url poster_query_request))
   \<and> \<not> sublist ''placeholder''
         (pathname (req_url poster_query_request) @ search (req_url poster_query_request))
   \<and> route poster_query_request = Some (CacheFirst (CACHE_NAMES IMAGES))
   \<and> req_method shows_query_request = ''GET''
   \<and> suffix ''.json'' (pathname (req_url shows_query_request))
   \<and> search (req_url shows_query_request) = ''?poster=cover.jpg''
   \<and> route shows_query_request = Some (CacheFirst (CACHE_NAMES IMAGES))
   \<and> route shows_query_request \<noteq> Some (StaleWhileRevalidate (CACHE_NAMES JSON))"
proof -
  have a: "req_method poster_query_request = ''GET''"
    and b: "search (req_url poster_query_request) = ''?src=cover.jpg''"
    by (simp_all add: poster_query_request_def)
  have c: "test image_extension_pattern (pathname (req_url poster_query_request))"
    by code_simp
  have d: "\<not> sublist ''share_image_url''
         (pathname (req_url poster_query_request) @ search (req_url poster_query_request))"
    by code_simp
  have e: "\<not> sublist ''placeholder''
         (pathname (req_url poster_query_request) @ search (req_url poster_query_request))"
    by code_simp
  have f: "route poster_query_request = Some (CacheFirst (CACHE_NAMES IMAGES))"
    by code_simp
  have g: "req_method shows_query_request = ''GET''"
    and h: "search (req_url shows_query_request) = ''?poster=cover.jpg''"
    by (simp_all add: shows_query_request_def)
  have i: "suffix ''.json'' (pathname (req_url shows_query_request))"
    by code_simp
  have j: "route shows_query_request = Some (CacheFirst (CACHE_NAMES IMAGES))"
    by code_simp
  have k: "route shows_query_request \<noteq> Some (StaleWhileRevalidate (CACHE_NAMES JSON))"
    by (simp add: j)
  from a c b d e f g i h j k show ?thesis by (intro conjI)
qed

section \<open>Entries without a date\<close>

text \<open>
  Claim C10. The deletion by age never removes an entry whose response has no
  \<^verbatim>\<open>date\<close> header (nor one whose header is empty or does not parse): the sweep by age
  keeps the entry whatever \<open>now\<close> is, so whatever the age of the entry. Deletion by
  age applies only to entries with a parseable date header. Accordingly, after the
  periodic cleanup the entry is there exactly when it is there after the count-based
  pass that the cleanup runs before the sweep, and it is retained in a partition
  within its count limit.
\<close>

theorem periodic_cleanup_undated_entry:
  assumes "cacheName \<in> set CACHE_NAMES_values"
      and "distinct (cache_keys (caches s cacheName))"
      and "(key, r) \<in> set (caches s cacheName)"
      and "headers_get (headers r) ''date'' = None
           \<or> (\<exists>dateHeader. headers_get (headers r) ''date'' = Some dateHeader
                 \<and> (dateHeader = [] \<or> getTime dateHeader = None))"
  shows "cache_match (sweep_cache getTime (now - 7 * day) (caches s cacheName)) key = Some r
         \<and> cache_match (caches (performPeriodicCleanup getTime now s) cacheName) key
             = cache_match (manageCacheSize (caches s cacheName) cacheName) key
         \<and> (length (caches s cacheName) \<le> cache_limit cacheName \<longrightarrow>
            cache_match (caches (performPeriodicCleanup getTime now s) cacheName) key = Some r)"
proof -
  have m: "cache_match (caches s cacheName) key = Some r"
    using assms(2,3) by (simp add: cache_match_distinct)
  have ne: "\<not> expired getTime t r" for t
    using assms(4) by (auto simp: expired_def)
  have a: "cache_match (sweep_cache getTime (now - 7 * day) (caches s cacheName)) key = Some r"
    using m ne by (simp add: sweep_cache_filter[OF assms(2)] cache_match_filter[OF assms(2)])
  have b: "cache_match (caches (performPeriodicCleanup getTime now s) cacheName) key
             = cache_match (manageCacheSize (caches s cacheName) cacheName) key"
    using cleanup_match_entry[OF assms(1,2,3), where g = getTime and now = now] ne by simp
  have c: "cache_match (caches (performPeriodicCleanup getTime now s) cacheName) key = Some r"
    if "length (caches s cacheName) \<le> cache_limit cacheName"
    using b m that by (simp add: manageCacheSize_within_limit)
  from a b c show ?thesis by blast
qed

theorem periodic_cleanup_undated_entry_witness:
  "cache_match (sweep_cache sample_getTime (sample_now - 7 * day) aged_cache) (page_key 2)
     = Some (stored_response None)
   \<and> cache_match (sweep_cache sample_getTime (sample_now - 7 * day) aged_cache) (page_key 3)
     = Some (stored_response (Some ''yesterday''))
   \<and> cache_match
     (caches (performPeriodicCleanup sample_getTime sample_now (dynamic_state aged_cache))
        (CACHE_NAMES DYNAMIC)) (page_key 2) = Some (stored_response None)
   \<and> cache_match
     (caches (performPeriodicCleanup sample_getTime sample_now (dynamic_state aged_cache))
        (CACHE_NAMES DYNAMIC)) (page_key 3) = Some (stored_response (Some ''yesterday''))"
proof -
  let ?s = "dynamic_state aged_cache"
  have d: "distinct (cache_keys (caches ?s (CACHE_NAMES DYNAMIC)))"
    by (simp add: distinct_aged_cache)
  have m2: "(page_key 2, stored_response None) \<in> set (caches ?s (CACHE_NAMES DYNAMIC))"
    and m3: "(page_key 3, stored_response (Some ''yesterday'')) \<in> set (caches ?s (CACHE_NAMES DYNAMIC))"
    by (simp_all add: aged_cache_def)
  have u2: "headers_get (headers (stored_response None)) ''date'' = None
     \<or> (\<exists>dateHeader. headers_get (headers (stored_response None)) ''date'' = Some dateHeader
           \<and> (dateHeader = [] \<or> sample_getTime dateHeader = None))"
    by simp
  have u3: "headers_get (headers (stored_response (Some ''yesterday''))) ''date'' = None
     \<or> (\<exists>dateHeader. headers_get (headers (stored_response (Some ''yesterday''))) ''date'' = Some dateHeader
           \<and> (dateHeader = [] \<or> sample_getTime dateHeader = None))"
    by (simp add: sample_getTime_def six_days_ago_def eight_days_ago_def)
  have l: "length (caches ?s (CACHE_NAMES DYNAMIC)) \<le> cache_limit (CACHE_NAMES DYNAMIC)"
    by (simp add: aged_cache_def dynamic_limit)
  note r2 = periodic_cleanup_undated_entry[where getTime = sample_getTime and now = sample_now,
      OF CACHE_NAMES_in_values d m2 u2]
  note r3 = periodic_cleanup_undated_entry[where getTime = sample_getTime and now = sample_now,
      OF CACHE_NAMES_in_values d m3 u3]
  have a2: "cache_match (sweep_cache sample_getTime (sample_now - 7 * day) aged_cache) (page_key 2)
              = Some (stored_response None)"
    using r2[THEN conjunct1] by simp
  have a3: "cache_match (sweep_cache sample_getTime (sample_now - 7 * day) aged_cache) (page_key 3)
              = Some (stored_response (Some ''yesterday''))"
    using r3[THEN conjunct1] by simp
  have b2: "cache_match
     (caches (performPeriodicCleanup sample_getTime sample_now ?s) (CACHE_NAMES DYNAMIC))
     (page_key 2) = Some (stored_response None)"
    using r2[THEN conjunct2, THEN conjunct2, THEN mp, OF l] .
  have b3: "cache_match
     (caches (performPeriodicCleanup sample_getTime sample_now ?s) (CACHE_NAMES DYNAMIC))
     (page_key 3) = Some (stored_response (Some ''yesterday''))"
    using r3[THEN conjunct2, THEN conjunct2, THEN mp, OF l] .
  from a2 a3 b2 b3 show ?thesis by (intro conjI)
qed

end
